theory Spec2Isabelle
  imports Complex_Main
begin

section \<open>Data model of backend/server.py\<close>

text \<open>
  The pydantic models of the server, one record each. Optional fields are options,
  \<open>datetime\<close> values are timestamps (natural numbers), Python floats are taken as reals
  (rounding is not modelled), Python ints are unbounded integers. The field \<open>id\<close> of
  every model is the generated UUID string.
\<close>

type_synonym datetime = nat

record user =
  u_id :: string
  u_name :: string
  u_email :: string
  u_password_hash :: string
  u_phone :: "string option"
  u_role :: string
  u_created_at :: datetime

record user_create =
  uc_name :: string
  uc_email :: string
  uc_password :: string
  uc_phone :: "string option"

record user_login =
  ul_email :: string
  ul_password :: string

record category =
  c_id :: string
  c_name :: string
  c_description :: string
  c_icon :: "string option"

record issue =
  i_id :: string
  i_user_id :: string
  i_category_id :: string
  i_title :: string
  i_description :: string
  i_image_base64 :: "string option"
  i_voice_base64 :: "string option"
  i_voice_transcript :: "string option"
  i_location_lat :: real
  i_location_long :: real
  i_address :: "string option"
  i_status :: string
  i_expected_completion :: "datetime option"
  i_actual_completion :: "datetime option"
  i_vote_count :: int
  i_created_at :: datetime
  i_updated_at :: datetime

record issue_create =
  ic_title :: string
  ic_description :: string
  ic_category_id :: string
  ic_image_base64 :: "string option"
  ic_voice_base64 :: "string option"
  ic_location_lat :: real
  ic_location_long :: real
  ic_address :: "string option"

record vote =
  v_id :: string
  v_issue_id :: string
  v_user_id :: string
  v_created_at :: datetime

record comment =
  m_id :: string
  m_issue_id :: string
  m_user_id :: string
  m_message :: string
  m_created_at :: datetime

record comment_create =
  cc_issue_id :: string
  cc_message :: string

text \<open>
  A stored MongoDB document is the dictionary of a model together with the key \<open>_id\<close>
  that \<open>insert_one\<close> adds; \<open>oid\<close> holds \<open>str(_id)\<close>. A collection is the list of
  its documents in insertion order, and the database is the five collections the
  handlers use.
\<close>

record 'a document =
  oid :: string
  body :: 'a

record store =
  users :: "user document list"
  categories :: "category document list"
  issues :: "issue document list"
  votes :: "vote document list"
  comments :: "comment document list"

definition empty_store :: store where
  "empty_store = \<lparr>users = [], categories = [], issues = [], votes = [], comments = []\<rparr>"

text \<open>
  The dictionaries the read handlers answer with: the stored fields and the keys the
  handler adds when the lookup of the author or of the category finds a document.
  \<open>None\<close> is an absent key. The value of \<open>category_icon\<close> may itself be null.
\<close>

record issue_out =
  o_issue :: issue
  o_user_name :: "string option"
  o_category_name :: "string option"
  o_category_icon :: "string option option"

record comment_out =
  o_comment :: comment
  o_comment_user_name :: "string option"

text \<open>
  What the code inside the \<open>try\<close> of \<open>transcribe_audio\<close> can raise: an instance of
  \<open>Exception\<close> (every ordinary error), or an instance of a class that derives from
  \<open>BaseException\<close> only, such as \<open>asyncio.CancelledError\<close>, which \<open>except Exception\<close> does
  not catch. The string names the exception.
\<close>

datatype py_exception = Exception string | BaseException string

text \<open>
  What a handler raises: \<open>HTTPException(status_code, detail)\<close>, an error of the
  database driver, which the framework answers with status 500, or an exception that
  nothing in the handler catches.
\<close>

datatype http_error =
  HTTPException nat string | OperationFailure string | Unhandled py_exception

text \<open>
  The values a handler draws from outside while it builds and inserts one document:
  \<open>str(uuid.uuid4())\<close>, the two readings of \<open>datetime.utcnow()\<close> (only \<open>Issue\<close> has a
  second one, for \<open>updated_at\<close>) and \<open>str(result.inserted_id)\<close>.
\<close>

record gen =
  new_uuid :: string
  now_created :: datetime
  now_updated :: datetime
  new_oid :: string

section \<open>The collection operations the handlers call\<close>

definition find_one :: "('a \<Rightarrow> bool) \<Rightarrow> 'a list \<Rightarrow> 'a option" where
  "find_one P col = List.find P col"

definition insert_one :: "string \<Rightarrow> 'a \<Rightarrow> 'a document list \<Rightarrow> 'a document list" where
  "insert_one inserted_id x col = col @ [\<lparr>oid = inserted_id, body = x\<rparr>]"

fun delete_one :: "('a \<Rightarrow> bool) \<Rightarrow> 'a list \<Rightarrow> 'a list" where
  "delete_one P [] = []"
| "delete_one P (x # xs) = (if P x then xs else x # delete_one P xs)"

fun update_one :: "('a \<Rightarrow> bool) \<Rightarrow> ('a \<Rightarrow> 'a) \<Rightarrow> 'a list \<Rightarrow> 'a list" where
  "update_one P f [] = []"
| "update_one P f (x # xs) = (if P x then f x # xs else x # update_one P f xs)"

text \<open>
  \<open>$sort\<close> and \<open>.sort\<close>: insertion sort by a "comes no later than" relation. Among
  documents that tie on every sort key the insertion order is kept.
\<close>

fun insort_by :: "('a \<Rightarrow> 'a \<Rightarrow> bool) \<Rightarrow> 'a \<Rightarrow> 'a list \<Rightarrow> 'a list" where
  "insort_by le x [] = [x]"
| "insort_by le x (y # ys) = (if le x y then x # y # ys else y # insort_by le x ys)"

definition sort_by :: "('a \<Rightarrow> 'a \<Rightarrow> bool) \<Rightarrow> 'a list \<Rightarrow> 'a list" where
  "sort_by le xs = foldr (insort_by le) xs []"

text \<open>\<open>{"vote_count": -1, "created_at": -1}\<close>\<close>

definition issue_order :: "issue document \<Rightarrow> issue document \<Rightarrow> bool" where
  "issue_order a b =
     (i_vote_count (body a) > i_vote_count (body b)
      \<or> (i_vote_count (body a) = i_vote_count (body b)
          \<and> i_created_at (body a) \<ge> i_created_at (body b)))"

text \<open>\<open>.sort("created_at", -1)\<close>\<close>

definition comment_order :: "comment document \<Rightarrow> comment document \<Rightarrow> bool" where
  "comment_order a b = (m_created_at (body a) \<ge> m_created_at (body b))"

section \<open>Helper functions\<close>

text \<open>
  \<open>object_id_to_str\<close> overwrites the key \<open>id\<close> of a fetched document with
  \<open>str(doc["_id"])\<close> and deletes \<open>_id\<close>. The first argument writes the model's
  \<open>id\<close> field.
\<close>

definition object_id_to_str :: "('a \<Rightarrow> string \<Rightarrow> 'a) \<Rightarrow> 'a document \<Rightarrow> 'a" where
  "object_id_to_str set_id d = set_id (body d) (oid d)"

definition set_user_id :: "user \<Rightarrow> string \<Rightarrow> user" where
  "set_user_id x v = x\<lparr>u_id := v\<rparr>"

definition set_category_id :: "category \<Rightarrow> string \<Rightarrow> category" where
  "set_category_id x v = x\<lparr>c_id := v\<rparr>"

definition set_issue_id :: "issue \<Rightarrow> string \<Rightarrow> issue" where
  "set_issue_id x v = x\<lparr>i_id := v\<rparr>"

definition set_comment_id :: "comment \<Rightarrow> string \<Rightarrow> comment" where
  "set_comment_id x v = x\<lparr>m_id := v\<rparr>"

text \<open>
  \<open>transcribe_audio\<close>: everything inside its \<open>try\<close> (building the chat client and
  awaiting \<open>send_message\<close>) is the external collaborator; its outcome is \<open>Inl x\<close> when
  \<open>x\<close> was raised and \<open>Inr response\<close> otherwise. The handler is \<open>except Exception\<close>: it
  returns the fallback for an \<open>Exception\<close> and lets anything else pass. The audio itself
  is not read.
\<close>

definition transcribe_audio :: "string \<Rightarrow> py_exception + string \<Rightarrow> py_exception + string" where
  "transcribe_audio audio_base64 llm =
     (case llm of
        Inr response \<Rightarrow> Inr ''Voice note recorded (transcription available in full version)''
      | Inl (Exception e) \<Rightarrow> Inr ''Voice note recorded (transcription failed)''
      | Inl (BaseException e) \<Rightarrow> Inl (BaseException e))"

section \<open>Users\<close>

text \<open>\<open>sha256_hex\<close> stands for \<open>hashlib.sha256(p.encode()).hexdigest()\<close>.\<close>

definition register_user ::
  "(string \<Rightarrow> string) \<Rightarrow> store \<Rightarrow> user_create \<Rightarrow> gen \<Rightarrow> http_error + (user \<times> store)" where
  "register_user sha256_hex s user_data g =
     (case find_one (\<lambda>d. u_email (body d) = uc_email user_data) (users s) of
        Some existing_user \<Rightarrow> Inl (HTTPException 400 ''Email already registered'')
      | None \<Rightarrow>
          let usr = \<lparr>u_id = new_uuid g, u_name = uc_name user_data,
                     u_email = uc_email user_data,
                     u_password_hash = sha256_hex (uc_password user_data),
                     u_phone = uc_phone user_data, u_role = ''citizen'',
                     u_created_at = now_created g\<rparr>
          in Inr (set_user_id usr (new_oid g),
                  s\<lparr>users := insert_one (new_oid g) usr (users s)\<rparr>))"

definition login_user ::
  "(string \<Rightarrow> string) \<Rightarrow> store \<Rightarrow> user_login \<Rightarrow> http_error + user" where
  "login_user sha256_hex s login_data =
     (case find_one (\<lambda>d. u_email (body d) = ul_email login_data
                          \<and> u_password_hash (body d) = sha256_hex (ul_password login_data))
             (users s) of
        None \<Rightarrow> Inl (HTTPException 401 ''Invalid credentials'')
      | Some d \<Rightarrow> Inr (object_id_to_str set_user_id d))"

section \<open>Categories\<close>

definition get_categories :: "store \<Rightarrow> http_error + category list" where
  "get_categories s = Inr (map (object_id_to_str set_category_id) (take 1000 (categories s)))"

definition default_categories :: "(string \<times> string \<times> string) list" where
  "default_categories =
     [(''Roads & Transportation'', ''Potholes, traffic issues, road repairs'', ''car''),
      (''Water & Sanitation'', ''Water leaks, drainage, sewage'', ''water-drop''),
      (''Electricity'', ''Power outages, street lights, electrical issues'', ''flash''),
      (''Waste Management'', ''Garbage collection, littering, recycling'', ''trash''),
      (''Public Safety'', ''Security, crime, emergency services'', ''shield''),
      (''Parks & Recreation'', ''Parks maintenance, recreational facilities'', ''leaf''),
      (''Other'', ''Other civic issues'', ''help-circle'')]"

text \<open>
  The loop of \<open>init_categories\<close>: the \<open>k\<close>-th iteration builds one \<open>Category\<close> (a fresh
  UUID) and inserts it (a fresh \<open>_id\<close>); \<open>gs k\<close> gives the two.
\<close>

fun insert_categories ::
  "(nat \<Rightarrow> gen) \<Rightarrow> nat \<Rightarrow> (string \<times> string \<times> string) list \<Rightarrow> category document list
     \<Rightarrow> category document list" where
  "insert_categories gs k [] col = col"
| "insert_categories gs k ((name, description, icon) # rest) col =
     insert_categories gs (Suc k) rest
       (insert_one (new_oid (gs k))
          \<lparr>c_id = new_uuid (gs k), c_name = name, c_description = description,
           c_icon = Some icon\<rparr> col)"

definition init_categories :: "store \<Rightarrow> (nat \<Rightarrow> gen) \<Rightarrow> http_error + store" where
  "init_categories s gs =
     Inr (s\<lparr>categories := insert_categories gs 0 default_categories []\<rparr>)"

section \<open>Issues\<close>

text \<open>Python truthiness of an optional string and of an optional float.\<close>

definition truthy_str :: "string option \<Rightarrow> bool" where
  "truthy_str x = (case x of None \<Rightarrow> False | Some v \<Rightarrow> v \<noteq> [])"

definition truthy_float :: "real option \<Rightarrow> bool" where
  "truthy_float x = (case x of None \<Rightarrow> False | Some v \<Rightarrow> v \<noteq> 0)"

definition create_issue ::
  "store \<Rightarrow> issue_create \<Rightarrow> string \<Rightarrow> py_exception + string \<Rightarrow> gen
     \<Rightarrow> http_error + (issue \<times> store)" where
  "create_issue s issue_data user_id llm g =
     (case (if truthy_str (ic_voice_base64 issue_data)
            then (case transcribe_audio (the (ic_voice_base64 issue_data)) llm of
                    Inl x \<Rightarrow> Inl x
                  | Inr transcript \<Rightarrow> Inr (Some transcript))
            else Inr None) of
        Inl x \<Rightarrow> Inl (Unhandled x)
      | Inr voice_transcript \<Rightarrow>
          let iss = \<lparr>i_id = new_uuid g, i_user_id = user_id,
                     i_category_id = ic_category_id issue_data,
                     i_title = ic_title issue_data,
                     i_description = ic_description issue_data,
                     i_image_base64 = ic_image_base64 issue_data,
                     i_voice_base64 = ic_voice_base64 issue_data,
                     i_voice_transcript = voice_transcript,
                     i_location_lat = ic_location_lat issue_data,
                     i_location_long = ic_location_long issue_data,
                     i_address = ic_address issue_data,
                     i_status = ''pending'',
                     i_expected_completion = None, i_actual_completion = None,
                     i_vote_count = 0,
                     i_created_at = now_created g, i_updated_at = now_updated g\<rparr>
          in Inr (set_issue_id iss (new_oid g),
                  s\<lparr>issues := insert_one (new_oid g) iss (issues s)\<rparr>))"

text \<open>
  The lookups that \<open>get_issues\<close> and \<open>get_issue\<close> both run on a fetched issue: first
  \<open>object_id_to_str\<close>, then the author by \<open>{"id": issue["user_id"]}\<close>, then the category
  by \<open>{"id": issue["category_id"]}\<close>; a key is added only when the document is found.
\<close>

definition issue_with_context :: "store \<Rightarrow> issue document \<Rightarrow> issue_out" where
  "issue_with_context s d =
     (let iss = object_id_to_str set_issue_id d;
          r0 = \<lparr>o_issue = iss, o_user_name = None, o_category_name = None,
                o_category_icon = None\<rparr>;
          r1 = (case find_one (\<lambda>u. u_id (body u) = i_user_id iss) (users s) of
                  Some usr \<Rightarrow> r0\<lparr>o_user_name := Some (u_name (body usr))\<rparr>
                | None \<Rightarrow> r0)
      in (case find_one (\<lambda>c. c_id (body c) = i_category_id iss) (categories s) of
            Some cat \<Rightarrow> r1\<lparr>o_category_name := Some (c_name (body cat)),
                           o_category_icon := Some (c_icon (body cat))\<rparr>
          | None \<Rightarrow> r1))"

text \<open>
  The \<open>$match\<close> stage of \<open>get_issues\<close>. The bounding box is added under
  \<open>if lat and lng\<close> and the category under \<open>if category_id\<close>, both Python truth tests.
\<close>

definition match_conditions ::
  "real option \<Rightarrow> real option \<Rightarrow> string option \<Rightarrow> issue document \<Rightarrow> bool" where
  "match_conditions lat lng category_id d =
     ((if truthy_float lat \<and> truthy_float lng
       then the lat - 0.05 \<le> i_location_lat (body d)
            \<and> i_location_lat (body d) \<le> the lat + 0.05
            \<and> the lng - 0.05 \<le> i_location_long (body d)
            \<and> i_location_long (body d) \<le> the lng + 0.05
       else True)
      \<and> (if truthy_str category_id then i_category_id (body d) = the category_id else True))"

text \<open>
  \<open>get_issues\<close>. The server rejects a \<open>$limit\<close> that is not positive, which surfaces
  as a driver error when the cursor is read. \<open>radius\<close> is a parameter of the handler.
\<close>

definition get_issues ::
  "store \<Rightarrow> real option \<Rightarrow> real option \<Rightarrow> real option \<Rightarrow> string option \<Rightarrow> int
     \<Rightarrow> http_error + issue_out list" where
  "get_issues s lat lng radius category_id limit =
     (if limit \<le> 0 then Inl (OperationFailure ''the limit must be positive'')
      else Inr (map (issue_with_context s)
                  (take (nat limit)
                     (sort_by issue_order
                        (filter (match_conditions lat lng category_id) (issues s))))))"

definition get_issue :: "store \<Rightarrow> string \<Rightarrow> http_error + issue_out" where
  "get_issue s issue_id =
     (case find_one (\<lambda>d. i_id (body d) = issue_id) (issues s) of
        None \<Rightarrow> Inl (HTTPException 404 ''Issue not found'')
      | Some d \<Rightarrow> Inr (issue_with_context s d))"

section \<open>Voting\<close>

definition vote_issue :: "store \<Rightarrow> string \<Rightarrow> string \<Rightarrow> gen \<Rightarrow> http_error + (bool \<times> store)" where
  "vote_issue s issue_id user_id g =
     (case find_one (\<lambda>v. v_issue_id (body v) = issue_id \<and> v_user_id (body v) = user_id)
             (votes s) of
        Some existing_vote \<Rightarrow>
          Inr (False,
               s\<lparr>votes := delete_one (\<lambda>v. v_id (body v) = v_id (body existing_vote)) (votes s),
                 issues := update_one (\<lambda>d. i_id (body d) = issue_id)
                             (\<lambda>d. d\<lparr>body := (body d)\<lparr>i_vote_count := i_vote_count (body d) - 1\<rparr>\<rparr>)
                             (issues s)\<rparr>)
      | None \<Rightarrow>
          Inr (True,
               s\<lparr>votes := insert_one (new_oid g)
                             \<lparr>v_id = new_uuid g, v_issue_id = issue_id, v_user_id = user_id,
                              v_created_at = now_created g\<rparr> (votes s),
                 issues := update_one (\<lambda>d. i_id (body d) = issue_id)
                             (\<lambda>d. d\<lparr>body := (body d)\<lparr>i_vote_count := i_vote_count (body d) + 1\<rparr>\<rparr>)
                             (issues s)\<rparr>))"

section \<open>Comments\<close>

definition add_comment ::
  "store \<Rightarrow> string \<Rightarrow> comment_create \<Rightarrow> string \<Rightarrow> gen \<Rightarrow> http_error + (comment \<times> store)" where
  "add_comment s issue_id comment_data user_id g =
     (let cmt = \<lparr>m_id = new_uuid g, m_issue_id = issue_id, m_user_id = user_id,
                 m_message = cc_message comment_data, m_created_at = now_created g\<rparr>
      in Inr (set_comment_id cmt (new_oid g),
              s\<lparr>comments := insert_one (new_oid g) cmt (comments s)\<rparr>))"

definition comment_with_author :: "store \<Rightarrow> comment document \<Rightarrow> comment_out" where
  "comment_with_author s d =
     (let cmt = object_id_to_str set_comment_id d
      in (case find_one (\<lambda>u. u_id (body u) = m_user_id cmt) (users s) of
            Some usr \<Rightarrow> \<lparr>o_comment = cmt, o_comment_user_name = Some (u_name (body usr))\<rparr>
          | None \<Rightarrow> \<lparr>o_comment = cmt, o_comment_user_name = None\<rparr>))"

definition get_comments :: "store \<Rightarrow> string \<Rightarrow> http_error + comment_out list" where
  "get_comments s issue_id =
     Inr (map (comment_with_author s)
            (take 1000
               (sort_by comment_order
                  (filter (\<lambda>c. m_issue_id (body c) = issue_id) (comments s)))))"

section \<open>Sequences of requests\<close>

text \<open>
  One request to the API with everything it reads from outside. \<open>handle\<close> is the
  database after the request; a request that raises leaves it as it was.
\<close>

datatype request =
    RegisterUser user_create gen
  | LoginUser user_login
  | GetCategories
  | InitCategories "nat \<Rightarrow> gen"
  | CreateIssue issue_create string "py_exception + string" gen
  | GetIssues "real option" "real option" "real option" "string option" int
  | GetIssue string
  | VoteIssue string string gen
  | AddComment string comment_create string gen
  | GetComments string

definition after :: "store \<Rightarrow> http_error + ('a \<times> store) \<Rightarrow> store" where
  "after s r = (case r of Inl e \<Rightarrow> s | Inr (x, s') \<Rightarrow> s')"

fun handle :: "(string \<Rightarrow> string) \<Rightarrow> request \<Rightarrow> store \<Rightarrow> store" where
  "handle h (RegisterUser user_data g) s = after s (register_user h s user_data g)"
| "handle h (LoginUser login_data) s = s"
| "handle h GetCategories s = s"
| "handle h (InitCategories gs) s = (case init_categories s gs of Inl e \<Rightarrow> s | Inr s' \<Rightarrow> s')"
| "handle h (CreateIssue issue_data user_id llm g) s =
     after s (create_issue s issue_data user_id llm g)"
| "handle h (GetIssues lat lng radius category_id limit) s = s"
| "handle h (GetIssue issue_id) s = s"
| "handle h (VoteIssue issue_id user_id g) s = after s (vote_issue s issue_id user_id g)"
| "handle h (AddComment issue_id comment_data user_id g) s =
     after s (add_comment s issue_id comment_data user_id g)"
| "handle h (GetComments issue_id) s = s"

fun run :: "(string \<Rightarrow> string) \<Rightarrow> request list \<Rightarrow> store \<Rightarrow> store" where
  "run h [] s = s"
| "run h (r # rs) s = run h rs (handle h r s)"

text \<open>
  \<open>uuid.uuid4()\<close> is relied on to return an identifier that is new to the database:
  the UUID of a new issue is not the \<open>id\<close> of a stored issue and no stored vote
  already refers to it, and the UUID of a new vote is not the \<open>id\<close> of a stored vote.
\<close>

fun uuid_is_new :: "request \<Rightarrow> store \<Rightarrow> bool" where
  "uuid_is_new (CreateIssue issue_data user_id llm g) s =
     (new_uuid g \<notin> set (map (\<lambda>d. i_id (body d)) (issues s))
      \<and> new_uuid g \<notin> set (map (\<lambda>v. v_issue_id (body v)) (votes s)))"
| "uuid_is_new (VoteIssue issue_id user_id g) s =
     (new_uuid g \<notin> set (map (\<lambda>v. v_id (body v)) (votes s)))"
| "uuid_is_new r s = True"

fun uuids_new :: "(string \<Rightarrow> string) \<Rightarrow> request list \<Rightarrow> store \<Rightarrow> bool" where
  "uuids_new h [] s = True"
| "uuids_new h (r # rs) s = (uuid_is_new r s \<and> uuids_new h rs (handle h r s))"

text \<open>The denormalised counter agrees with the vote rows, for every stored issue.\<close>

definition vote_rows :: "store \<Rightarrow> string \<Rightarrow> nat" where
  "vote_rows s issue_id = length (filter (\<lambda>v. v_issue_id (body v) = issue_id) (votes s))"

definition votes_consistent :: "store \<Rightarrow> bool" where
  "votes_consistent s =
     list_all (\<lambda>d. i_vote_count (body d) = int (vote_rows s (i_id (body d)))) (issues s)"

text \<open>
  Generated identifiers are not repeated within a collection, and a user has at most one
  vote row per issue.
\<close>

definition rows_unique :: "store \<Rightarrow> bool" where
  "rows_unique s =
     (distinct (map (\<lambda>d. i_id (body d)) (issues s))
      \<and> distinct (map (\<lambda>v. v_id (body v)) (votes s))
      \<and> distinct (map (\<lambda>v. (v_issue_id (body v), v_user_id (body v))) (votes s)))"

text \<open>Whether the user has a vote row on the issue.\<close>

definition has_vote :: "store \<Rightarrow> string \<Rightarrow> string \<Rightarrow> bool" where
  "has_vote s issue_id user_id =
     list_ex (\<lambda>v. v_issue_id (body v) = issue_id \<and> v_user_id (body v) = user_id) (votes s)"

text \<open>The update \<open>{"$inc": {"vote_count": k}}\<close> on the issues whose \<open>id\<close> is \<open>issue_id\<close>.\<close>

definition inc_vote_count :: "int \<Rightarrow> string \<Rightarrow> issue document \<Rightarrow> issue document" where
  "inc_vote_count k issue_id d =
     (if i_id (body d) = issue_id
      then d\<lparr>body := (body d)\<lparr>i_vote_count := i_vote_count (body d) + k\<rparr>\<rparr>
      else d)"

section \<open>Sample requests\<close>

text \<open>
  Concrete identifiers and request bodies in the shapes the server produces and
  receives: a UUID is 36 characters, the string of an ObjectId is 24 hexadecimal digits.
\<close>

definition gen_a :: gen where
  "gen_a = \<lparr>new_uuid = ''123e4567-e89b-42d3-a456-426614174000'', now_created = 1000,
            now_updated = 1000, new_oid = ''507f1f77bcf86cd799439011''\<rparr>"

definition gen_b :: gen where
  "gen_b = \<lparr>new_uuid = ''9b2c1d6e-3f4a-4b5c-8d7e-0a1b2c3d4e5f'', now_created = 2000,
            now_updated = 2000, new_oid = ''507f1f77bcf86cd799439012''\<rparr>"

definition gen_c :: gen where
  "gen_c = \<lparr>new_uuid = ''0f8fad5b-d9cb-469f-a165-70867728950e'', now_created = 3000,
            now_updated = 3000, new_oid = ''507f1f77bcf86cd799439013''\<rparr>"

definition john :: user_create where
  "john = \<lparr>uc_name = ''John Doe'', uc_email = ''john@example.com'',
           uc_password = ''securepassword123'', uc_phone = Some ''+1234567890''\<rparr>"

definition pothole :: issue_create where
  "pothole = \<lparr>ic_title = ''Pothole on Main Street'',
              ic_description = ''Large pothole near the intersection'',
              ic_category_id = ''cat-roads'', ic_image_base64 = None, ic_voice_base64 = None,
              ic_location_lat = 40.7128, ic_location_long = - 74.0060,
              ic_address = Some ''123 Main Street, New York, NY''\<rparr>"

definition noise :: issue_create where
  "noise = pothole\<lparr>ic_title := ''Noise complaint with voice note'',
                    ic_voice_base64 := Some ''ZmFrZV9hdWRpb19kYXRh''\<rparr>"

definition ghost_comments_store :: store where
  "ghost_comments_store =
     run (\<lambda>p. p)
       [AddComment ''no-such-issue''
          \<lparr>cc_issue_id = ''no-such-issue'', cc_message = ''First''\<rparr> ''user-1'' gen_a,
        AddComment ''another-issue''
          \<lparr>cc_issue_id = ''another-issue'', cc_message = ''Elsewhere''\<rparr> ''user-1'' gen_b,
        AddComment ''no-such-issue''
          \<lparr>cc_issue_id = ''no-such-issue'', cc_message = ''Second''\<rparr> ''user-2'' gen_c]
       empty_store"

definition ghost_request :: request where
  "ghost_request =
     AddComment ''no-such-issue'' \<lparr>cc_issue_id = ''no-such-issue'', cc_message = ''First''\<rparr>
       ''user-1'' gen_a"

text \<open>
  The database after one issue was reported by \<open>user-1\<close> and one comment was added to it
  by \<open>user-2\<close>; neither user is registered and the category was never seeded.
\<close>

definition issue_a_store :: store where
  "issue_a_store =
     run (\<lambda>p. p)
       [CreateIssue pothole ''user-1'' (Inr ''ok'') gen_a,
        AddComment ''123e4567-e89b-42d3-a456-426614174000''
          \<lparr>cc_issue_id = ''123e4567-e89b-42d3-a456-426614174000'', cc_message = ''Seen it too''\<rparr>
          ''user-2'' gen_b]
       empty_store"

text \<open>The vote row that \<open>vote_issue\<close> inserts.\<close>

definition new_vote :: "string \<Rightarrow> string \<Rightarrow> gen \<Rightarrow> vote document" where
  "new_vote issue_id user_id g =
     \<lparr>oid = new_oid g,
      body = \<lparr>v_id = new_uuid g, v_issue_id = issue_id, v_user_id = user_id,
              v_created_at = now_created g\<rparr>\<rparr>"

text \<open>
  A run of four requests: an issue is reported, two users vote for it, and the first
  user takes the vote back. \<open>voting_store n vs\<close> is the database with that one issue at
  \<open>vote_count = n\<close> and the vote rows \<open>vs\<close>.
\<close>

definition voting_run :: "request list" where
  "voting_run =
     [CreateIssue pothole ''user-1'' (Inr ''ok'') gen_a,
      VoteIssue ''123e4567-e89b-42d3-a456-426614174000'' ''user-1'' gen_b,
      VoteIssue ''123e4567-e89b-42d3-a456-426614174000'' ''user-2'' gen_c,
      VoteIssue ''123e4567-e89b-42d3-a456-426614174000'' ''user-1'' gen_a]"

definition pothole_doc :: "int \<Rightarrow> issue document" where
  "pothole_doc n =
     \<lparr>oid = ''507f1f77bcf86cd799439011'',
      body = \<lparr>i_id = ''123e4567-e89b-42d3-a456-426614174000'', i_user_id = ''user-1'',
        i_category_id = ''cat-roads'', i_title = ''Pothole on Main Street'',
        i_description = ''Large pothole near the intersection'',
        i_image_base64 = None, i_voice_base64 = None, i_voice_transcript = None,
        i_location_lat = 40.7128, i_location_long = - 74.0060,
        i_address = Some ''123 Main Street, New York, NY'', i_status = ''pending'',
        i_expected_completion = None, i_actual_completion = None, i_vote_count = n,
        i_created_at = 1000, i_updated_at = 1000\<rparr>\<rparr>"

definition voting_store :: "int \<Rightarrow> vote document list \<Rightarrow> store" where
  "voting_store n vs =
     \<lparr>users = [], categories = [], issues = [pothole_doc n], votes = vs, comments = []\<rparr>"

section \<open>Facts about the collection operations\<close>

lemma find_one_None: "(find_one P xs = None) = (\<forall>x\<in>set xs. \<not> P x)"
  by (auto simp: find_one_def find_None_iff)

lemma find_one_Some_iff: "(\<exists>x. find_one P xs = Some x) = (\<exists>x\<in>set xs. P x)"
  using find_one_None [of P xs] by (cases "find_one P xs") auto

lemma find_one_append:
  "find_one P (xs @ ys) = (case find_one P xs of Some x \<Rightarrow> Some x | None \<Rightarrow> find_one P ys)"
  by (induction xs) (simp_all add: find_one_def)

lemma set_insort_by: "set (insort_by le x xs) = insert x (set xs)"
  by (induction xs) auto

lemma length_insort_by: "length (insort_by le x xs) = Suc (length xs)"
  by (induction xs) auto

lemma set_sort_by: "set (sort_by le xs) = set xs"
  by (induction xs) (simp_all add: sort_by_def set_insort_by)

lemma length_sort_by: "length (sort_by le xs) = length xs"
  by (induction xs) (simp_all add: sort_by_def length_insort_by)

lemma sort_by_Nil_iff: "(sort_by le xs = []) = (xs = [])"
  using length_sort_by [of le xs] by (metis length_0_conv)

lemma sorted_insort_by:
  assumes tot: "\<And>a b. \<not> le a b \<Longrightarrow> le b a" and tr: "\<And>a b c. le a b \<Longrightarrow> le b c \<Longrightarrow> le a c"
  shows "sorted_wrt le xs \<Longrightarrow> sorted_wrt le (insort_by le x xs)"
proof (induction xs)
  case Nil
  then show ?case by simp
next
  case (Cons y ys)
  show ?case
  proof (cases "le x y")
    case True
    then have "\<forall>z\<in>set ys. le x z" using Cons.prems tr by auto
    with True Cons.prems show ?thesis by simp
  next
    case False
    then have "le y x" by (rule tot)
    with False Cons show ?thesis by (auto simp: set_insort_by)
  qed
qed

lemma sorted_sort_by:
  assumes "\<And>a b. \<not> le a b \<Longrightarrow> le b a" and "\<And>a b c. le a b \<Longrightarrow> le b c \<Longrightarrow> le a c"
  shows "sorted_wrt le (sort_by le xs)"
proof (induction xs)
  case Nil
  then show ?case by (simp add: sort_by_def)
next
  case (Cons x xs)
  have "sort_by le (x # xs) = insort_by le x (sort_by le xs)" by (simp add: sort_by_def)
  then show ?case using sorted_insort_by [of le, OF assms Cons] by simp
qed

lemma sorted_issue_order: "sorted_wrt issue_order (sort_by issue_order xs)"
  by (rule sorted_sort_by) (auto simp: issue_order_def)

lemma sorted_comment_order: "sorted_wrt comment_order (sort_by comment_order xs)"
  by (rule sorted_sort_by) (auto simp: comment_order_def)

lemma sorted_wrt_take_local: "sorted_wrt le xs \<Longrightarrow> sorted_wrt le (take n xs)"
proof (induction xs arbitrary: n)
  case Nil
  then show ?case by simp
next
  case (Cons x xs)
  then show ?case by (cases n) (auto dest: in_set_takeD)
qed

lemma delete_one_key:
  "distinct (map f xs) \<Longrightarrow> x \<in> set xs \<Longrightarrow> delete_one (\<lambda>y. f y = f x) xs = remove1 x xs"
proof (induction xs)
  case Nil
  then show ?case by simp
next
  case (Cons a xs)
  then show ?case by (cases "a = x") (auto simp: image_iff)
qed

lemma update_one_key:
  "distinct (map f xs) \<Longrightarrow>
   update_one (\<lambda>y. f y = k) g xs = map (\<lambda>y. if f y = k then g y else y) xs"
proof (induction xs)
  case Nil
  then show ?case by simp
next
  case (Cons a xs)
  show ?case
  proof (cases "f a = k")
    case True
    then have "\<forall>y\<in>set xs. f y \<noteq> k" using Cons.prems by (auto simp: image_iff)
    then have "map (\<lambda>y. if f y = k then g y else y) xs = xs" by (simp add: map_idI)
    with True show ?thesis by simp
  next
    case False
    with Cons show ?thesis by simp
  qed
qed

lemma distinct_map_remove1: "distinct (map f xs) \<Longrightarrow> distinct (map f (remove1 x xs))"
proof (induction xs)
  case Nil
  then show ?case by simp
next
  case (Cons a xs)
  then show ?case using set_remove1_subset [of x xs] by (auto simp: image_iff)
qed

lemma find_one_Some_D: "find_one P xs = Some x \<Longrightarrow> x \<in> set xs \<and> P x"
  unfolding find_one_def by (induction xs) (auto split: if_splits)

lemma length_filter_remove1:
  "x \<in> set xs \<Longrightarrow>
   length (filter P (remove1 x xs)) =
     (if P x then length (filter P xs) - 1 else length (filter P xs))"
  by (simp add: filter_remove1 length_remove1 remove1_idem)

lemma int_pred: "0 < (n::nat) \<Longrightarrow> int (n - 1) = int n - 1"
  by simp

lemma issue_a_store_eq:
  "issue_a_store =
     \<lparr>users = [], categories = [],
      issues = [\<lparr>oid = ''507f1f77bcf86cd799439011'',
                 body = \<lparr>i_id = ''123e4567-e89b-42d3-a456-426614174000'', i_user_id = ''user-1'',
                   i_category_id = ''cat-roads'', i_title = ''Pothole on Main Street'',
                   i_description = ''Large pothole near the intersection'',
                   i_image_base64 = None, i_voice_base64 = None, i_voice_transcript = None,
                   i_location_lat = 40.7128, i_location_long = - 74.0060,
                   i_address = Some ''123 Main Street, New York, NY'', i_status = ''pending'',
                   i_expected_completion = None, i_actual_completion = None, i_vote_count = 0,
                   i_created_at = 1000, i_updated_at = 1000\<rparr>\<rparr>],
      votes = [],
      comments = [\<lparr>oid = ''507f1f77bcf86cd799439012'',
                   body = \<lparr>m_id = ''9b2c1d6e-3f4a-4b5c-8d7e-0a1b2c3d4e5f'',
                     m_issue_id = ''123e4567-e89b-42d3-a456-426614174000'', m_user_id = ''user-2'',
                     m_message = ''Seen it too'', m_created_at = 2000\<rparr>\<rparr>]\<rparr>"
  by (simp add: issue_a_store_def empty_store_def create_issue_def add_comment_def after_def
        insert_one_def Let_def truthy_str_def pothole_def gen_a_def gen_b_def set_issue_id_def
        set_comment_id_def)

section \<open>Listing issues\<close>

text \<open>
  C5. Two calls of \<open>get_issues\<close> on the same database that differ only in \<open>radius\<close>
  return the same result: the parameter is accepted and never read.
\<close>

theorem get_issues_ignores_radius:
  "get_issues s lat lng r1 category_id limit = get_issues s lat lng r2 category_id limit"
  by (simp add: get_issues_def)

section \<open>Reseeding the categories\<close>

lemma insert_categories_names:
  "map (\<lambda>d. c_name (body d)) (insert_categories gs k cs col)
     = map (\<lambda>d. c_name (body d)) col @ map fst cs"
  by (induction gs k cs col rule: insert_categories.induct) (simp_all add: insert_one_def)

lemma default_names:
  "map fst default_categories =
     [''Roads & Transportation'', ''Water & Sanitation'', ''Electricity'',
      ''Waste Management'', ''Public Safety'', ''Parks & Recreation'', ''Other'']"
  by (simp add: default_categories_def)

lemma init_categories_names:
  "init_categories s gs = Inr s' \<Longrightarrow>
   map (\<lambda>d. c_name (body d)) (categories s') =
     [''Roads & Transportation'', ''Water & Sanitation'', ''Electricity'',
      ''Waste Management'', ''Public Safety'', ''Parks & Recreation'', ''Other'']"
  by (auto simp: init_categories_def insert_categories_names default_names)

text \<open>
  C7. From any database and with any generated identifiers, \<open>init_categories\<close> succeeds
  and leaves exactly seven categories, named Roads & Transportation, Water & Sanitation,
  Electricity, Waste Management, Public Safety, Parks & Recreation and Other, with no name
  twice; a second call right after the first leaves the same seven names.
\<close>

theorem init_categories_seed:
  "\<exists>s1 s2. init_categories s gs = Inr s1 \<and> init_categories s1 gs' = Inr s2
     \<and> map (\<lambda>d. c_name (body d)) (categories s1) =
         [''Roads & Transportation'', ''Water & Sanitation'', ''Electricity'',
          ''Waste Management'', ''Public Safety'', ''Parks & Recreation'', ''Other'']
     \<and> length (categories s1) = 7
     \<and> distinct (map (\<lambda>d. c_name (body d)) (categories s1))
     \<and> map (\<lambda>d. c_name (body d)) (categories s2) = map (\<lambda>d. c_name (body d)) (categories s1)
     \<and> length (categories s2) = 7"
proof -
  obtain s1 where s1: "init_categories s gs = Inr s1" by (simp add: init_categories_def)
  obtain s2 where s2: "init_categories s1 gs' = Inr s2" by (simp add: init_categories_def)
  note n1 = init_categories_names [OF s1] and n2 = init_categories_names [OF s2]
  have l1: "length (categories s1) = 7" using arg_cong [OF n1, of length] by simp
  have l2: "length (categories s2) = 7" using arg_cong [OF n2, of length] by simp
  have d1: "distinct (map (\<lambda>d. c_name (body d)) (categories s1))" unfolding n1 by simp
  show ?thesis using s1 s2 n1 n2 l1 l2 d1 by (intro exI [of _ s1] exI [of _ s2]) simp
qed

section \<open>Registration\<close>

lemma register_user_error_iff:
  "(register_user h s u g = Inl (HTTPException 400 ''Email already registered''))
     = (\<exists>d\<in>set (users s). u_email (body d) = uc_email u)"
proof (cases "find_one (\<lambda>d. u_email (body d) = uc_email u) (users s)")
  case None
  have ok: "register_user h s u g \<noteq> Inl (HTTPException 400 ''Email already registered'')"
    using None by (simp add: register_user_def Let_def)
  from None have "\<forall>d\<in>set (users s). u_email (body d) \<noteq> uc_email u"
    by (simp only: find_one_None)
  with ok show ?thesis by blast
next
  case (Some d)
  then have "\<exists>d\<in>set (users s). u_email (body d) = uc_email u"
    using find_one_Some_iff [of "\<lambda>d. u_email (body d) = uc_email u" "users s"] by auto
  then show ?thesis using Some by (simp add: register_user_def)
qed

lemma register_user_inserts:
  assumes "\<forall>d\<in>set (users s). u_email (body d) \<noteq> uc_email u"
  shows "\<exists>usr s1 d. register_user h s u g = Inr (usr, s1) \<and> users s1 = users s @ [d]
           \<and> u_email (body d) = uc_email u \<and> u_email usr = uc_email u"
proof -
  have "find_one (\<lambda>d. u_email (body d) = uc_email u) (users s) = None"
    using assms by (simp add: find_one_None)
  then show ?thesis
    by (simp add: register_user_def Let_def insert_one_def set_user_id_def)
qed

text \<open>
  C8. \<open>register_user\<close> raises HTTP 400 "Email already registered" exactly when a stored
  user has the email of the request. Otherwise it succeeds and stores one user with that
  email, and every later registration with the same email, whatever its other fields,
  raises that error, so the email stays with one user.
\<close>

theorem register_user_duplicate_email:
  "((register_user h s u g = Inl (HTTPException 400 ''Email already registered''))
      = (\<exists>d\<in>set (users s). u_email (body d) = uc_email u))
   \<and> ((\<exists>d\<in>set (users s). u_email (body d) = uc_email u)
        \<or> (\<exists>usr s1. register_user h s u g = Inr (usr, s1)
              \<and> u_email usr = uc_email u
              \<and> length (filter (\<lambda>d. u_email (body d) = uc_email u) (users s1)) = 1
              \<and> (\<forall>u2 g2. uc_email u2 = uc_email u \<longrightarrow>
                    register_user h s1 u2 g2 = Inl (HTTPException 400 ''Email already registered''))))"
proof (cases "\<exists>d\<in>set (users s). u_email (body d) = uc_email u")
  case True
  then show ?thesis by (simp add: register_user_error_iff)
next
  case False
  then have no: "\<forall>d\<in>set (users s). u_email (body d) \<noteq> uc_email u" by simp
  from register_user_inserts [OF no, of h g] obtain usr s1 d where
    r: "register_user h s u g = Inr (usr, s1)" and us: "users s1 = users s @ [d]"
    and ed: "u_email (body d) = uc_email u" and eu: "u_email usr = uc_email u"
    by blast
  have f: "filter (\<lambda>d. u_email (body d) = uc_email u) (users s) = []"
    using no by (simp add: filter_empty_conv)
  have one: "length (filter (\<lambda>d. u_email (body d) = uc_email u) (users s1)) = 1"
    using f ed by (simp add: us)
  have again: "register_user h s1 u2 g2 = Inl (HTTPException 400 ''Email already registered'')"
    if "uc_email u2 = uc_email u" for u2 g2
    using that ed by (auto simp: register_user_error_iff us)
  show ?thesis using False r eu one again by (simp add: register_user_error_iff)
qed

theorem register_user_duplicate_email_witness:
  "\<exists>usr s1. register_user (\<lambda>p. p) empty_store john gen_a = Inr (usr, s1)
     \<and> length (filter (\<lambda>d. u_email (body d) = ''john@example.com'') (users s1)) = 1
     \<and> register_user (\<lambda>p. p) s1 john gen_b = Inl (HTTPException 400 ''Email already registered'')"
  using register_user_duplicate_email [of "\<lambda>p. p" empty_store john gen_a]
  by (auto simp: empty_store_def john_def)

section \<open>Creating issues\<close>

text \<open>
  \<open>create_issue\<close> either lets an exception of the transcription pass and stores nothing,
  or appends one issue with the generated UUID, no votes and status "pending", and
  answers with that issue under \<open>id = str(_id)\<close>.
\<close>

lemma create_issue_cases:
  "(\<exists>x. create_issue s issue_data user_id llm g = Inl x)
   \<or> (\<exists>iss. create_issue s issue_data user_id llm g =
               Inr (iss\<lparr>i_id := new_oid g\<rparr>,
                    s\<lparr>issues := issues s @ [\<lparr>oid = new_oid g, body = iss\<rparr>]\<rparr>)
          \<and> i_id iss = new_uuid g \<and> i_vote_count iss = 0 \<and> i_status iss = ''pending'')"
proof (cases "if truthy_str (ic_voice_base64 issue_data)
              then (case transcribe_audio (the (ic_voice_base64 issue_data)) llm of
                      Inl x \<Rightarrow> Inl x
                    | Inr transcript \<Rightarrow> Inr (Some transcript))
              else Inr None")
  case (Inl x)
  then show ?thesis by (simp add: create_issue_def)
next
  case (Inr voice_transcript)
  let ?iss = "\<lparr>i_id = new_uuid g, i_user_id = user_id,
                i_category_id = ic_category_id issue_data,
                i_title = ic_title issue_data,
                i_description = ic_description issue_data,
                i_image_base64 = ic_image_base64 issue_data,
                i_voice_base64 = ic_voice_base64 issue_data,
                i_voice_transcript = voice_transcript,
                i_location_lat = ic_location_lat issue_data,
                i_location_long = ic_location_long issue_data,
                i_address = ic_address issue_data,
                i_status = ''pending'',
                i_expected_completion = None, i_actual_completion = None,
                i_vote_count = 0,
                i_created_at = now_created g, i_updated_at = now_updated g\<rparr>"
  have "create_issue s issue_data user_id llm g =
          Inr (?iss\<lparr>i_id := new_oid g\<rparr>,
               s\<lparr>issues := issues s @ [\<lparr>oid = new_oid g, body = ?iss\<rparr>]\<rparr>)"
    using Inr by (simp add: create_issue_def Let_def insert_one_def set_issue_id_def)
  then show ?thesis by (intro disjI2 exI [of _ ?iss]) simp
qed

text \<open>
  C6, as stated, fails. \<open>transcribe_audio\<close> catches \<open>Exception\<close> only: when the awaited call
  of the collaborator raises \<open>asyncio.CancelledError\<close>, which is no \<open>Exception\<close>, creating
  the sample issue with a voice note raises it to the caller and stores nothing.
\<close>

theorem create_issue_cancelled_counterexample:
  "ic_voice_base64 noise = Some ''ZmFrZV9hdWRpb19kYXRh''
   \<and> create_issue empty_store noise ''user-1'' (Inl (BaseException ''CancelledError'')) gen_a
       = Inl (Unhandled (BaseException ''CancelledError''))
   \<and> handle (\<lambda>p. p)
         (CreateIssue noise ''user-1'' (Inl (BaseException ''CancelledError'')) gen_a) empty_store
       = empty_store"
  by (simp add: create_issue_def noise_def truthy_str_def transcribe_audio_def after_def)

text \<open>
  C6, amended. When the request carries a voice attachment (a non-empty \<open>voice_base64\<close>)
  and the transcription collaborator raises an exception that is an instance of
  \<open>Exception\<close>, \<open>create_issue\<close> answers with success and the failure is not passed on. It
  appends exactly one document to the issues and changes nothing else: the document
  carries the user, category, title, description, image, voice note, location and address
  of the request, the generated UUID and timestamps, status "pending", \<open>vote_count = 0\<close>
  and the fixed transcript "Voice note recorded (transcription failed)"; the answer is
  that issue with \<open>id = str(_id)\<close>. An exception outside \<open>Exception\<close> is raised to the
  caller instead, and nothing is stored.
\<close>

theorem create_issue_transcription_failure:
  assumes "ic_voice_base64 issue_data = Some v" and "v \<noteq> []"
  shows "create_issue s issue_data user_id (Inl (Exception e)) g =
           Inr (\<lparr>i_id = new_oid g, i_user_id = user_id,
                 i_category_id = ic_category_id issue_data,
                 i_title = ic_title issue_data,
                 i_description = ic_description issue_data,
                 i_image_base64 = ic_image_base64 issue_data,
                 i_voice_base64 = Some v,
                 i_voice_transcript = Some ''Voice note recorded (transcription failed)'',
                 i_location_lat = ic_location_lat issue_data,
                 i_location_long = ic_location_long issue_data,
                 i_address = ic_address issue_data,
                 i_status = ''pending'',
                 i_expected_completion = None, i_actual_completion = None,
                 i_vote_count = 0,
                 i_created_at = now_created g, i_updated_at = now_updated g\<rparr>,
                s\<lparr>issues := issues s @
                   [\<lparr>oid = new_oid g,
                     body = \<lparr>i_id = new_uuid g, i_user_id = user_id,
                       i_category_id = ic_category_id issue_data,
                       i_title = ic_title issue_data,
                       i_description = ic_description issue_data,
                       i_image_base64 = ic_image_base64 issue_data,
                       i_voice_base64 = Some v,
                       i_voice_transcript = Some ''Voice note recorded (transcription failed)'',
                       i_location_lat = ic_location_lat issue_data,
                       i_location_long = ic_location_long issue_data,
                       i_address = ic_address issue_data,
                       i_status = ''pending'',
                       i_expected_completion = None, i_actual_completion = None,
                       i_vote_count = 0,
                       i_created_at = now_created g, i_updated_at = now_updated g\<rparr>\<rparr>]\<rparr>)
         \<and> create_issue s issue_data user_id (Inl (BaseException e)) g
             = Inl (Unhandled (BaseException e))"
  using assms
  by (simp add: create_issue_def Let_def truthy_str_def transcribe_audio_def insert_one_def
        set_issue_id_def)

theorem create_issue_transcription_failure_witness:
  "\<exists>resp s'. create_issue issue_a_store noise ''user-3'' (Inl (Exception ''TimeoutError'')) gen_c
                 = Inr (resp, s')
     \<and> map (\<lambda>d. i_title (body d)) (issues s')
         = [''Pothole on Main Street'', ''Noise complaint with voice note'']
     \<and> map (\<lambda>d. i_user_id (body d)) (issues s') = [''user-1'', ''user-3'']
     \<and> map (\<lambda>d. i_voice_transcript (body d)) (issues s')
         = [None, Some ''Voice note recorded (transcription failed)'']
     \<and> map (\<lambda>d. i_vote_count (body d)) (issues s') = [0, 0]
     \<and> i_id resp = ''507f1f77bcf86cd799439013''
     \<and> comments s' = comments issue_a_store"
  using create_issue_transcription_failure
          [of noise "''ZmFrZV9hdWRpb19kYXRh''" issue_a_store "''user-3''" "''TimeoutError''" gen_c]
  by (simp add: noise_def issue_a_store_eq gen_c_def)

section \<open>Unknown issue ids\<close>

lemma comment_with_author_comment:
  "o_comment (comment_with_author s d) = (body d)\<lparr>m_id := oid d\<rparr>"
  by (simp add: comment_with_author_def Let_def object_id_to_str_def set_comment_id_def
        split: option.splits)

lemma comment_with_author_user_name:
  "o_comment_user_name (comment_with_author s d) =
     map_option (\<lambda>u. u_name (body u))
       (find_one (\<lambda>u. u_id (body u) = m_user_id (body d)) (users s))"
  by (simp add: comment_with_author_def Let_def object_id_to_str_def set_comment_id_def
        split: option.splits)

text \<open>
  C9, as stated, fails: \<open>add_comment\<close> does not check that the issue exists, so after one
  comment was added under an id that no issue has, \<open>get_issue\<close> on that id raises 404
  while \<open>get_comments\<close> on it returns that comment, not the empty list.
\<close>

theorem get_comments_unknown_issue_counterexample:
  "find_one (\<lambda>d. i_id (body d) = ''no-such-issue'')
      (issues (run (\<lambda>p. p) [ghost_request] empty_store)) = None
   \<and> get_issue (run (\<lambda>p. p) [ghost_request] empty_store) ''no-such-issue''
       = Inl (HTTPException 404 ''Issue not found'')
   \<and> get_comments (run (\<lambda>p. p) [ghost_request] empty_store) ''no-such-issue'' \<noteq> Inr []"
  by (simp add: ghost_request_def empty_store_def add_comment_def after_def insert_one_def
        get_issue_def get_comments_def find_one_def sort_by_def Let_def)

text \<open>
  C9, amended. For every \<open>issue_id\<close> that is the \<open>id\<close> of no stored issue, \<open>get_issue\<close>
  raises HTTP 404 "Issue not found", and \<open>get_comments\<close> succeeds and returns the stored
  comments that carry this \<open>issue_id\<close>: exactly those comments, each with \<open>id\<close> overwritten
  by \<open>str(_id)\<close> and with the name of the stored user whose \<open>id\<close> is its \<open>user_id\<close> when
  there is one, newest first, the first 1000 of them. The result is the empty list exactly
  when no stored comment carries this \<open>issue_id\<close>.
\<close>

theorem unknown_issue_get_and_comments:
  assumes "\<forall>d\<in>set (issues s). i_id (body d) \<noteq> issue_id"
  shows "get_issue s issue_id = Inl (HTTPException 404 ''Issue not found'')
         \<and> (\<exists>cs. get_comments s issue_id = Inr cs
               \<and> map o_comment cs =
                   map (\<lambda>d. (body d)\<lparr>m_id := oid d\<rparr>)
                     (take 1000
                        (sort_by comment_order
                           (filter (\<lambda>c. m_issue_id (body c) = issue_id) (comments s))))
               \<and> (\<forall>c\<in>set cs.
                     o_comment_user_name c =
                       map_option (\<lambda>u. u_name (body u))
                         (find_one (\<lambda>u. u_id (body u) = m_user_id (o_comment c)) (users s)))
               \<and> (\<forall>c\<in>set cs. m_issue_id (o_comment c) = issue_id)
               \<and> sorted_wrt (\<lambda>a b. m_created_at (o_comment a) \<ge> m_created_at (o_comment b)) cs
               \<and> length cs = min 1000 (length (filter (\<lambda>c. m_issue_id (body c) = issue_id)
                                                   (comments s)))
               \<and> ((cs = []) = (\<forall>c\<in>set (comments s). m_issue_id (body c) \<noteq> issue_id)))"
proof -
  let ?m = "filter (\<lambda>c. m_issue_id (body c) = issue_id) (comments s)"
  let ?t = "take 1000 (sort_by comment_order ?m)"
  let ?cs = "map (comment_with_author s) ?t"
  have "find_one (\<lambda>d. i_id (body d) = issue_id) (issues s) = None"
    using assms by (simp add: find_one_None)
  then have g: "get_issue s issue_id = Inl (HTTPException 404 ''Issue not found'')"
    by (simp add: get_issue_def)
  have c: "get_comments s issue_id = Inr ?cs"
    by (simp add: get_comments_def)
  have x: "map o_comment ?cs = map (\<lambda>d. (body d)\<lparr>m_id := oid d\<rparr>) ?t"
    by (simp add: comment_with_author_comment)
  have n: "\<forall>c\<in>set ?cs.
             o_comment_user_name c =
               map_option (\<lambda>u. u_name (body u))
                 (find_one (\<lambda>u. u_id (body u) = m_user_id (o_comment c)) (users s))"
    by (auto simp: comment_with_author_comment comment_with_author_user_name)
  have sub: "set ?t \<subseteq> set ?m"
    using set_take_subset [of 1000 "sort_by comment_order ?m"] by (simp add: set_sort_by)
  have a: "\<forall>c\<in>set ?cs. m_issue_id (o_comment c) = issue_id"
    using sub by (auto simp: comment_with_author_comment)
  have "sorted_wrt comment_order ?t"
    by (rule sorted_wrt_take_local) (rule sorted_comment_order)
  then have o: "sorted_wrt (\<lambda>a b. m_created_at (o_comment a) \<ge> m_created_at (o_comment b)) ?cs"
    by (simp add: sorted_wrt_map comment_with_author_comment comment_order_def [abs_def])
  have l: "length ?cs = min 1000 (length ?m)"
    by (simp add: length_sort_by min.commute)
  have e: "(?cs = []) = (\<forall>c\<in>set (comments s). m_issue_id (body c) \<noteq> issue_id)"
    by (auto simp: sort_by_Nil_iff filter_empty_conv)
  show ?thesis using g c x n a o l e by blast
qed

text \<open>
  Three comments were added, the first and the third under an id that no issue has:
  \<open>get_issue\<close> on that id raises 404 and \<open>get_comments\<close> returns those two, newest first.
\<close>

lemma ghost_comments_store_eq:
  "ghost_comments_store =
     \<lparr>users = [], categories = [], issues = [], votes = [],
      comments =
        [\<lparr>oid = ''507f1f77bcf86cd799439011'',
          body = \<lparr>m_id = ''123e4567-e89b-42d3-a456-426614174000'',
            m_issue_id = ''no-such-issue'', m_user_id = ''user-1'', m_message = ''First'',
            m_created_at = 1000\<rparr>\<rparr>,
         \<lparr>oid = ''507f1f77bcf86cd799439012'',
          body = \<lparr>m_id = ''9b2c1d6e-3f4a-4b5c-8d7e-0a1b2c3d4e5f'',
            m_issue_id = ''another-issue'', m_user_id = ''user-1'', m_message = ''Elsewhere'',
            m_created_at = 2000\<rparr>\<rparr>,
         \<lparr>oid = ''507f1f77bcf86cd799439013'',
          body = \<lparr>m_id = ''0f8fad5b-d9cb-469f-a165-70867728950e'',
            m_issue_id = ''no-such-issue'', m_user_id = ''user-2'', m_message = ''Second'',
            m_created_at = 3000\<rparr>\<rparr>]\<rparr>"
  by (simp add: ghost_comments_store_def empty_store_def add_comment_def after_def
        insert_one_def Let_def gen_a_def gen_b_def gen_c_def)

theorem unknown_issue_get_and_comments_witness:
  "get_issue ghost_comments_store ''no-such-issue'' = Inl (HTTPException 404 ''Issue not found'')
   \<and> get_comments ghost_comments_store ''no-such-issue'' =
       Inr [\<lparr>o_comment = \<lparr>m_id = ''507f1f77bcf86cd799439013'',
               m_issue_id = ''no-such-issue'', m_user_id = ''user-2'', m_message = ''Second'',
               m_created_at = 3000\<rparr>,
             o_comment_user_name = None\<rparr>,
            \<lparr>o_comment = \<lparr>m_id = ''507f1f77bcf86cd799439011'',
               m_issue_id = ''no-such-issue'', m_user_id = ''user-1'', m_message = ''First'',
               m_created_at = 1000\<rparr>,
             o_comment_user_name = None\<rparr>]"
proof -
  have no: "\<forall>d\<in>set (issues ghost_comments_store). i_id (body d) \<noteq> ''no-such-issue''"
    by (simp add: ghost_comments_store_eq)
  from unknown_issue_get_and_comments [OF no] obtain cs where
    g: "get_issue ghost_comments_store ''no-such-issue''
          = Inl (HTTPException 404 ''Issue not found'')"
    and c: "get_comments ghost_comments_store ''no-such-issue'' = Inr cs"
    and x: "map o_comment cs =
              map (\<lambda>d. (body d)\<lparr>m_id := oid d\<rparr>)
                (take 1000
                   (sort_by comment_order
                      (filter (\<lambda>c. m_issue_id (body c) = ''no-such-issue'')
                         (comments ghost_comments_store))))"
    and n: "\<forall>c\<in>set cs.
              o_comment_user_name c =
                map_option (\<lambda>u. u_name (body u))
                  (find_one (\<lambda>u. u_id (body u) = m_user_id (o_comment c))
                     (users ghost_comments_store))"
    by (elim exE conjE) (rule that, assumption+)
  from n have n': "\<forall>c\<in>set cs. o_comment_user_name c = None"
    by (simp add: ghost_comments_store_eq find_one_def)
  from x have x': "map o_comment cs =
      [\<lparr>m_id = ''507f1f77bcf86cd799439013'', m_issue_id = ''no-such-issue'',
        m_user_id = ''user-2'', m_message = ''Second'', m_created_at = 3000\<rparr>,
       \<lparr>m_id = ''507f1f77bcf86cd799439011'', m_issue_id = ''no-such-issue'',
        m_user_id = ''user-1'', m_message = ''First'', m_created_at = 1000\<rparr>]"
    by (simp add: ghost_comments_store_eq sort_by_def comment_order_def)
  from x' obtain c1 c2 where cs: "cs = [c1, c2]"
    and c1: "o_comment c1 = \<lparr>m_id = ''507f1f77bcf86cd799439013'', m_issue_id = ''no-such-issue'',
        m_user_id = ''user-2'', m_message = ''Second'', m_created_at = 3000\<rparr>"
    and c2: "o_comment c2 = \<lparr>m_id = ''507f1f77bcf86cd799439011'', m_issue_id = ''no-such-issue'',
        m_user_id = ''user-1'', m_message = ''First'', m_created_at = 1000\<rparr>"
    by (auto simp: map_eq_Cons_conv)
  from n' cs have "o_comment_user_name c1 = None" "o_comment_user_name c2 = None" by simp_all
  with c1 c2 have "c1 = \<lparr>o_comment = o_comment c1, o_comment_user_name = None\<rparr>"
    "c2 = \<lparr>o_comment = o_comment c2, o_comment_user_name = None\<rparr>" by simp_all
  with c1 c2 cs c g show ?thesis by simp
qed

section \<open>Author and category lookups\<close>

lemma issue_with_context_issue:
  "o_issue (issue_with_context s d) = (body d)\<lparr>i_id := oid d\<rparr>"
  by (simp add: issue_with_context_def Let_def object_id_to_str_def set_issue_id_def
        split: option.splits)

lemma issue_with_context_no_user:
  assumes "\<forall>u\<in>set (users s). u_id (body u) \<noteq> i_user_id (body d)"
  shows "o_user_name (issue_with_context s d) = None"
proof -
  have "find_one (\<lambda>u. u_id (body u) = i_user_id (body d)) (users s) = None"
    using assms by (simp add: find_one_None)
  then show ?thesis
    by (simp add: issue_with_context_def Let_def object_id_to_str_def set_issue_id_def
          split: option.splits)
qed

lemma issue_with_context_no_category:
  assumes "\<forall>c\<in>set (categories s). c_id (body c) \<noteq> i_category_id (body d)"
  shows "o_category_name (issue_with_context s d) = None
         \<and> o_category_icon (issue_with_context s d) = None"
proof -
  have "find_one (\<lambda>c. c_id (body c) = i_category_id (body d)) (categories s) = None"
    using assms by (simp add: find_one_None)
  then show ?thesis
    by (simp add: issue_with_context_def Let_def object_id_to_str_def set_issue_id_def
          split: option.splits)
qed

lemma comment_with_author_no_user:
  assumes "\<forall>u\<in>set (users s). u_id (body u) \<noteq> m_user_id (body d)"
  shows "o_comment_user_name (comment_with_author s d) = None"
proof -
  have "find_one (\<lambda>u. u_id (body u) = m_user_id (body d)) (users s) = None"
    using assms by (simp add: find_one_None)
  then show ?thesis
    by (simp add: comment_with_author_def Let_def object_id_to_str_def set_comment_id_def)
qed

text \<open>
  C10. The lookups of the author and of the category never make a read fail. When the
  issue is found, \<open>get_issue\<close> returns it; for a positive \<open>limit\<close>, \<open>get_issues\<close> returns
  every issue that the filter, the sort and the limit select; \<open>get_comments\<close> always returns
  the selected comments. The returned record is the stored one with \<open>id\<close> overwritten by
  \<open>str(_id)\<close>, and whenever no stored user (category) has the record's \<open>user_id\<close>
  (\<open>category_id\<close>) as its \<open>id\<close>, the key \<open>user_name\<close> (the keys \<open>category_name\<close> and
  \<open>category_icon\<close>) is absent from it.
\<close>

theorem enrichment_is_best_effort:
  "(\<forall>d. find_one (\<lambda>d. i_id (body d) = issue_id) (issues s) = Some d \<longrightarrow>
       (\<exists>r. get_issue s issue_id = Inr r \<and> o_issue r = (body d)\<lparr>i_id := oid d\<rparr>
          \<and> ((\<forall>u\<in>set (users s). u_id (body u) \<noteq> i_user_id (o_issue r))
                \<longrightarrow> o_user_name r = None)
          \<and> ((\<forall>c\<in>set (categories s). c_id (body c) \<noteq> i_category_id (o_issue r))
                \<longrightarrow> o_category_name r = None \<and> o_category_icon r = None)))
   \<and> (0 < limit \<longrightarrow>
       (\<exists>rs. get_issues s lat lng radius category_id limit = Inr rs
          \<and> map o_issue rs =
              map (\<lambda>d. (body d)\<lparr>i_id := oid d\<rparr>)
                (take (nat limit)
                   (sort_by issue_order
                      (filter (match_conditions lat lng category_id) (issues s))))
          \<and> (\<forall>r\<in>set rs.
                ((\<forall>u\<in>set (users s). u_id (body u) \<noteq> i_user_id (o_issue r))
                   \<longrightarrow> o_user_name r = None)
                \<and> ((\<forall>c\<in>set (categories s). c_id (body c) \<noteq> i_category_id (o_issue r))
                   \<longrightarrow> o_category_name r = None \<and> o_category_icon r = None))))
   \<and> (\<exists>cs. get_comments s comments_of = Inr cs
          \<and> map o_comment cs =
              map (\<lambda>d. (body d)\<lparr>m_id := oid d\<rparr>)
                (take 1000
                   (sort_by comment_order
                      (filter (\<lambda>c. m_issue_id (body c) = comments_of) (comments s))))
          \<and> (\<forall>c\<in>set cs.
                (\<forall>u\<in>set (users s). u_id (body u) \<noteq> m_user_id (o_comment c))
                   \<longrightarrow> o_comment_user_name c = None))"
proof (intro conjI allI impI)
  fix d
  assume "find_one (\<lambda>d. i_id (body d) = issue_id) (issues s) = Some d"
  then have "get_issue s issue_id = Inr (issue_with_context s d)"
    by (simp add: get_issue_def)
  then show "\<exists>r. get_issue s issue_id = Inr r \<and> o_issue r = (body d)\<lparr>i_id := oid d\<rparr>
          \<and> ((\<forall>u\<in>set (users s). u_id (body u) \<noteq> i_user_id (o_issue r))
                \<longrightarrow> o_user_name r = None)
          \<and> ((\<forall>c\<in>set (categories s). c_id (body c) \<noteq> i_category_id (o_issue r))
                \<longrightarrow> o_category_name r = None \<and> o_category_icon r = None)"
    using issue_with_context_no_user [of s d] issue_with_context_no_category [of s d]
    by (simp add: issue_with_context_issue)
next
  assume "0 < limit"
  then have "get_issues s lat lng radius category_id limit =
       Inr (map (issue_with_context s)
              (take (nat limit)
                 (sort_by issue_order
                    (filter (match_conditions lat lng category_id) (issues s)))))"
    by (simp add: get_issues_def)
  then show "\<exists>rs. get_issues s lat lng radius category_id limit = Inr rs
          \<and> map o_issue rs =
              map (\<lambda>d. (body d)\<lparr>i_id := oid d\<rparr>)
                (take (nat limit)
                   (sort_by issue_order
                      (filter (match_conditions lat lng category_id) (issues s))))
          \<and> (\<forall>r\<in>set rs.
                ((\<forall>u\<in>set (users s). u_id (body u) \<noteq> i_user_id (o_issue r))
                   \<longrightarrow> o_user_name r = None)
                \<and> ((\<forall>c\<in>set (categories s). c_id (body c) \<noteq> i_category_id (o_issue r))
                   \<longrightarrow> o_category_name r = None \<and> o_category_icon r = None))"
    using issue_with_context_no_user [of s] issue_with_context_no_category [of s]
    by (auto simp: issue_with_context_issue)
next
  have "get_comments s comments_of =
       Inr (map (comment_with_author s)
              (take 1000
                 (sort_by comment_order
                    (filter (\<lambda>c. m_issue_id (body c) = comments_of) (comments s)))))"
    by (simp add: get_comments_def)
  then show "\<exists>cs. get_comments s comments_of = Inr cs
          \<and> map o_comment cs =
              map (\<lambda>d. (body d)\<lparr>m_id := oid d\<rparr>)
                (take 1000
                   (sort_by comment_order
                      (filter (\<lambda>c. m_issue_id (body c) = comments_of) (comments s))))
          \<and> (\<forall>c\<in>set cs.
                (\<forall>u\<in>set (users s). u_id (body u) \<noteq> m_user_id (o_comment c))
                   \<longrightarrow> o_comment_user_name c = None)"
    using comment_with_author_no_user [of s]
    by (auto simp: comment_with_author_comment)
qed

theorem enrichment_is_best_effort_witness:
  "(\<exists>r. get_issue issue_a_store ''123e4567-e89b-42d3-a456-426614174000'' = Inr r
      \<and> i_title (o_issue r) = ''Pothole on Main Street''
      \<and> o_user_name r = None \<and> o_category_name r = None \<and> o_category_icon r = None)
   \<and> (\<exists>r. get_issues issue_a_store None None (Some 5) None 50 = Inr [r]
      \<and> i_title (o_issue r) = ''Pothole on Main Street''
      \<and> o_user_name r = None \<and> o_category_name r = None \<and> o_category_icon r = None)
   \<and> (\<exists>c. get_comments issue_a_store ''123e4567-e89b-42d3-a456-426614174000'' = Inr [c]
      \<and> m_message (o_comment c) = ''Seen it too'' \<and> o_comment_user_name c = None)"
  using enrichment_is_best_effort
          [of "''123e4567-e89b-42d3-a456-426614174000''" issue_a_store 50 None None "Some 5" None
              "''123e4567-e89b-42d3-a456-426614174000''"]
  by (auto simp: issue_a_store_eq find_one_def match_conditions_def truthy_float_def
        truthy_str_def sort_by_def)

section \<open>Fetching a created issue\<close>

text \<open>
  C3. \<open>create_issue\<close> answers with \<open>id = str(result.inserted_id)\<close>, while \<open>get_issue\<close>
  looks the issue up by the stored key \<open>id\<close>, which holds the UUID. On the empty database,
  creating the sample issue succeeds with \<open>vote_count = 0\<close> and \<open>status = "pending"\<close>, and
  \<open>get_issue\<close> on the returned id raises HTTP 404.
\<close>

theorem create_issue_then_get_issue_by_returned_id:
  "\<exists>resp s'. create_issue empty_store pothole ''user-1'' (Inr ''ok'') gen_a = Inr (resp, s')
     \<and> i_id resp = ''507f1f77bcf86cd799439011''
     \<and> i_vote_count resp = 0 \<and> i_status resp = ''pending''
     \<and> get_issue s' (i_id resp) = Inl (HTTPException 404 ''Issue not found'')"
  by (simp add: create_issue_def empty_store_def pothole_def gen_a_def Let_def truthy_str_def
        insert_one_def set_issue_id_def get_issue_def find_one_def)

text \<open>
  The same for every database and request: the returned id is never found as long as it
  is not the UUID of a stored issue, and the issue is found under its UUID, with
  \<open>vote_count = 0\<close> and \<open>status = "pending"\<close>.
\<close>

lemma create_issue_get_issue_by_returned_id:
  assumes "create_issue s issue_data user_id llm g = Inr (resp, s')"
    and "\<forall>d\<in>set (issues s). i_id (body d) \<noteq> new_oid g"
    and "new_uuid g \<noteq> new_oid g"
  shows "i_id resp = new_oid g
         \<and> get_issue s' (i_id resp) = Inl (HTTPException 404 ''Issue not found'')"
proof -
  from assms(1) create_issue_cases [of s issue_data user_id llm g]
  have r: "i_id resp = new_oid g"
    and i: "issues s' = issues s @ [\<lparr>oid = new_oid g, body = resp\<lparr>i_id := new_uuid g\<rparr>\<rparr>]"
    by auto
  have "find_one (\<lambda>d. i_id (body d) = new_oid g) (issues s') = None"
    using assms(2,3) by (simp add: find_one_None i)
  then show ?thesis using r by (simp add: get_issue_def)
qed

lemma create_issue_get_issue_by_uuid:
  assumes "create_issue s issue_data user_id llm g = Inr (resp, s')"
    and "\<forall>d\<in>set (issues s). i_id (body d) \<noteq> new_uuid g"
  shows "\<exists>r. get_issue s' (new_uuid g) = Inr r \<and> o_issue r = resp
           \<and> i_vote_count (o_issue r) = 0 \<and> i_status (o_issue r) = ''pending''"
proof -
  let ?d = "\<lparr>oid = new_oid g, body = resp\<lparr>i_id := new_uuid g\<rparr>\<rparr>"
  from assms(1) create_issue_cases [of s issue_data user_id llm g]
  have r: "i_id resp = new_oid g" "i_vote_count resp = 0" "i_status resp = ''pending''"
    and i: "issues s' = issues s @ [?d]"
    by auto
  have "find_one (\<lambda>d. i_id (body d) = new_uuid g) (issues s) = None"
    using assms(2) by (simp add: find_one_None)
  then have "find_one (\<lambda>d. i_id (body d) = new_uuid g) (issues s') = Some ?d"
    by (simp add: i find_one_append) (simp add: find_one_def)
  then have "get_issue s' (new_uuid g) = Inr (issue_with_context s' ?d)"
    by (simp add: get_issue_def)
  moreover have "o_issue (issue_with_context s' ?d) = resp"
    using r(1) by (simp add: issue_with_context_issue)
  ultimately show ?thesis using r by simp
qed

section \<open>Filtering, sorting and capping the list of issues\<close>

text \<open>
  C4. The bounding box is added under \<open>if lat and lng\<close>, so a supplied coordinate \<open>0.0\<close>
  counts as not supplied: with \<open>lat = 0.0\<close> and \<open>lng = 0.0\<close> the issue stored at
  (40.7128, -74.0060) is returned although it lies outside the box around (0, 0).
\<close>

theorem get_issues_at_zero_coordinates:
  "\<exists>r. get_issues issue_a_store (Some 0) (Some 0) (Some 5) None 50 = Inr [r]
     \<and> i_location_lat (o_issue r) = 40.7128 \<and> i_location_long (o_issue r) = - 74.0060
     \<and> \<not> (i_location_lat (o_issue r) \<le> 0 + 0.05)
     \<and> \<not> (0 - 0.05 \<le> i_location_long (o_issue r))"
  by (simp add: issue_a_store_eq get_issues_def match_conditions_def truthy_float_def
        truthy_str_def sort_by_def issue_with_context_def Let_def object_id_to_str_def
        set_issue_id_def find_one_def)

text \<open>
  Likewise a supplied empty \<open>category_id\<close> filters nothing, and a \<open>limit\<close> that is not
  positive makes the call fail.
\<close>

lemma get_issues_empty_category:
  "\<exists>r. get_issues issue_a_store None None (Some 5) (Some '''') 50 = Inr [r]
     \<and> i_category_id (o_issue r) = ''cat-roads''"
  by (simp add: issue_a_store_eq get_issues_def match_conditions_def truthy_float_def
        truthy_str_def sort_by_def issue_with_context_def Let_def object_id_to_str_def
        set_issue_id_def find_one_def)

lemma get_issues_nonpositive_limit:
  "limit \<le> 0 \<Longrightarrow> \<exists>e. get_issues s lat lng radius category_id limit = Inl e"
  by (simp add: get_issues_def)

text \<open>
  What \<open>get_issues\<close> does guarantee: every returned issue is a stored one that passes
  \<open>match_conditions\<close>; it lies in the box when both coordinates are supplied and non-zero,
  and has the category when a non-empty one is supplied; the result is sorted by
  \<open>vote_count\<close> descending, then \<open>created_at\<close> descending, and has at most \<open>limit\<close>
  entries.
\<close>

lemma get_issues_selected:
  assumes "get_issues s lat lng radius category_id limit = Inr rs" and "r \<in> set rs"
  shows "\<exists>d\<in>set (issues s). match_conditions lat lng category_id d
           \<and> o_issue r = (body d)\<lparr>i_id := oid d\<rparr>"
proof -
  let ?sel = "take (nat limit) (sort_by issue_order
                 (filter (match_conditions lat lng category_id) (issues s)))"
  from assms(1) have "rs = map (issue_with_context s) ?sel"
    by (simp add: get_issues_def split: if_splits)
  with assms(2) obtain d where d: "d \<in> set ?sel" and r: "r = issue_with_context s d"
    by auto
  from d have "d \<in> set (sort_by issue_order (filter (match_conditions lat lng category_id) (issues s)))"
    by (rule in_set_takeD)
  then have "d \<in> set (issues s) \<and> match_conditions lat lng category_id d"
    by (simp add: set_sort_by)
  then show ?thesis using r by (auto simp: issue_with_context_issue)
qed

lemma get_issues_bounding_box:
  assumes "get_issues s (Some lat) (Some lng) radius category_id limit = Inr rs"
    and "lat \<noteq> 0" and "lng \<noteq> 0" and "r \<in> set rs"
  shows "lat - 0.05 \<le> i_location_lat (o_issue r) \<and> i_location_lat (o_issue r) \<le> lat + 0.05
         \<and> lng - 0.05 \<le> i_location_long (o_issue r) \<and> i_location_long (o_issue r) \<le> lng + 0.05"
  using get_issues_selected [OF assms(1,4)] assms(2,3)
  by (auto simp: match_conditions_def truthy_float_def)

lemma get_issues_category:
  assumes "get_issues s lat lng radius (Some c) limit = Inr rs"
    and "c \<noteq> []" and "r \<in> set rs"
  shows "i_category_id (o_issue r) = c"
  using get_issues_selected [OF assms(1,3)] assms(2)
  by (auto simp: match_conditions_def truthy_str_def)

lemma get_issues_capped:
  assumes "get_issues s lat lng radius category_id limit = Inr rs"
  shows "int (length rs) \<le> limit"
  using assms by (auto simp: get_issues_def split: if_splits)

lemma get_issues_sorted:
  assumes "get_issues s lat lng radius category_id limit = Inr rs"
  shows "sorted_wrt (\<lambda>a b. i_vote_count (o_issue a) > i_vote_count (o_issue b)
                       \<or> (i_vote_count (o_issue a) = i_vote_count (o_issue b)
                           \<and> i_created_at (o_issue a) \<ge> i_created_at (o_issue b))) rs"
proof -
  let ?sel = "take (nat limit) (sort_by issue_order
                 (filter (match_conditions lat lng category_id) (issues s)))"
  from assms have rs: "rs = map (issue_with_context s) ?sel"
    by (simp add: get_issues_def split: if_splits)
  have "sorted_wrt issue_order ?sel"
    by (rule sorted_wrt_take_local) (rule sorted_issue_order)
  then show ?thesis
    unfolding rs by (simp add: sorted_wrt_map issue_with_context_issue issue_order_def [abs_def])
qed

section \<open>Properties of voting\<close>

text \<open>
  With unique row identifiers, \<open>delete_one\<close> removes the vote that was found and
  \<open>update_one\<close> changes the one issue with the given \<open>id\<close>.
\<close>

lemma has_vote_iff:
  "has_vote s i u = (\<exists>v\<in>set (votes s). v_issue_id (body v) = i \<and> v_user_id (body v) = u)"
  by (simp add: has_vote_def list_ex_iff)

lemma has_vote_find_one:
  "has_vote s i u =
     (find_one (\<lambda>v. v_issue_id (body v) = i \<and> v_user_id (body v) = u) (votes s) \<noteq> None)"
  by (simp add: has_vote_iff find_one_None)

lemma update_one_issue:
  "distinct (map (\<lambda>d. i_id (body d)) xs) \<Longrightarrow>
   update_one (\<lambda>d. i_id (body d) = issue_id)
     (\<lambda>d. d\<lparr>body := (body d)\<lparr>i_vote_count := i_vote_count (body d) + k\<rparr>\<rparr>) xs
   = map (inc_vote_count k issue_id) xs"
  using update_one_key [of "\<lambda>d. i_id (body d)" xs issue_id]
  by (simp add: inc_vote_count_def [abs_def])

lemma vote_issue_existing:
  assumes "rows_unique s"
    and "find_one (\<lambda>v. v_issue_id (body v) = issue_id \<and> v_user_id (body v) = user_id) (votes s)
           = Some ev"
  shows "vote_issue s issue_id user_id g =
           Inr (False, s\<lparr>votes := remove1 ev (votes s),
                         issues := map (inc_vote_count (- 1) issue_id) (issues s)\<rparr>)"
proof -
  from assms(2) have ev: "ev \<in> set (votes s)" by (simp add: find_one_Some_D)
  have d: "delete_one (\<lambda>v. v_id (body v) = v_id (body ev)) (votes s) = remove1 ev (votes s)"
    using assms(1) ev delete_one_key [of "\<lambda>v. v_id (body v)" "votes s" ev]
    by (simp add: rows_unique_def)
  have u: "update_one (\<lambda>d. i_id (body d) = issue_id)
             (\<lambda>d. d\<lparr>body := (body d)\<lparr>i_vote_count := i_vote_count (body d) - 1\<rparr>\<rparr>) (issues s)
           = map (inc_vote_count (- 1) issue_id) (issues s)"
    using assms(1) update_one_issue [of "issues s" issue_id "- 1"]
    by (simp add: rows_unique_def)
  show ?thesis using assms(2) by (simp add: vote_issue_def d u)
qed

lemma vote_issue_new:
  assumes "rows_unique s"
    and "find_one (\<lambda>v. v_issue_id (body v) = issue_id \<and> v_user_id (body v) = user_id) (votes s)
           = None"
  shows "vote_issue s issue_id user_id g =
           Inr (True, s\<lparr>votes := votes s @ [\<lparr>oid = new_oid g,
                                    body = \<lparr>v_id = new_uuid g, v_issue_id = issue_id,
                                            v_user_id = user_id, v_created_at = now_created g\<rparr>\<rparr>],
                        issues := map (inc_vote_count 1 issue_id) (issues s)\<rparr>)"
proof -
  have u: "update_one (\<lambda>d. i_id (body d) = issue_id)
             (\<lambda>d. d\<lparr>body := (body d)\<lparr>i_vote_count := i_vote_count (body d) + 1\<rparr>\<rparr>) (issues s)
           = map (inc_vote_count 1 issue_id) (issues s)"
    using assms(1) update_one_issue [of "issues s" issue_id 1]
    by (simp add: rows_unique_def)
  show ?thesis using assms(2) by (simp add: vote_issue_def u insert_one_def)
qed

lemma inc_vote_count_id: "i_id (body (inc_vote_count k j d)) = i_id (body d)"
  by (simp add: inc_vote_count_def)

lemma inc_vote_count_count:
  "i_vote_count (body (inc_vote_count k j d)) =
     (if i_id (body d) = j then i_vote_count (body d) + k else i_vote_count (body d))"
  by (simp add: inc_vote_count_def)

lemma inc_vote_count_undo:
  "map (inc_vote_count (- k) j) (map (inc_vote_count k j) xs) = xs"
  by (induction xs) (simp_all add: inc_vote_count_def)

subsection \<open>The counter and the vote rows stay in step\<close>

lemma votes_consistent_iff:
  "votes_consistent s =
     (\<forall>d\<in>set (issues s).
        i_vote_count (body d) =
          int (length (filter (\<lambda>v. v_issue_id (body v) = i_id (body d)) (votes s))))"
  by (simp add: votes_consistent_def vote_rows_def list_all_iff)

lemma vote_issue_existing_unique:
  assumes "rows_unique s"
    and "s' = s\<lparr>votes := remove1 ev (votes s),
                   issues := map (inc_vote_count k issue_id) (issues s)\<rparr>"
  shows "rows_unique s'"
  using assms
  by (simp add: rows_unique_def distinct_map_remove1 inc_vote_count_id [abs_def] comp_def)

lemma vote_issue_new_unique:
  assumes u: "rows_unique s"
    and f: "find_one (\<lambda>v. v_issue_id (body v) = issue_id \<and> v_user_id (body v) = user_id)
              (votes s) = None"
    and n: "new_uuid g \<notin> set (map (\<lambda>v. v_id (body v)) (votes s))"
    and s': "s' = s\<lparr>votes := votes s @ [\<lparr>oid = new_oid g,
                                    body = \<lparr>v_id = new_uuid g, v_issue_id = issue_id,
                                            v_user_id = user_id, v_created_at = now_created g\<rparr>\<rparr>],
                     issues := map (inc_vote_count k issue_id) (issues s)\<rparr>"
  shows "rows_unique s'"
proof -
  from f have "\<forall>v\<in>set (votes s). \<not> (v_issue_id (body v) = issue_id \<and> v_user_id (body v) = user_id)"
    by (simp only: find_one_None)
  then have "(issue_id, user_id) \<notin> set (map (\<lambda>v. (v_issue_id (body v), v_user_id (body v))) (votes s))"
    by auto
  then show ?thesis
    using u n by (simp add: rows_unique_def s' inc_vote_count_id [abs_def] comp_def)
qed

lemma vote_issue_existing_inv:
  assumes c: "votes_consistent s" and u: "rows_unique s"
    and f: "find_one (\<lambda>v. v_issue_id (body v) = issue_id \<and> v_user_id (body v) = user_id)
              (votes s) = Some ev"
    and s': "s' = s\<lparr>votes := remove1 ev (votes s),
                     issues := map (inc_vote_count (- 1) issue_id) (issues s)\<rparr>"
  shows "votes_consistent s' \<and> rows_unique s'"
proof -
  have ev: "ev \<in> set (votes s)" and ei: "v_issue_id (body ev) = issue_id"
    using find_one_Some_D [OF f] by simp_all
  have pos: "0 < length (filter (\<lambda>v. v_issue_id (body v) = issue_id) (votes s))"
    using ev ei by (auto simp: filter_empty_conv)
  have rows: "length (filter (\<lambda>v. v_issue_id (body v) = j) (votes s')) =
                (if j = issue_id
                 then length (filter (\<lambda>v. v_issue_id (body v) = j) (votes s)) - 1
                 else length (filter (\<lambda>v. v_issue_id (body v) = j) (votes s)))" for j
    using ev ei by (auto simp: s' length_filter_remove1)
  have "votes_consistent s'"
    unfolding votes_consistent_iff
  proof
    fix d' assume "d' \<in> set (issues s')"
    then obtain d where d: "d \<in> set (issues s)" and d': "d' = inc_vote_count (- 1) issue_id d"
      by (auto simp: s')
    from c d have cd: "i_vote_count (body d) =
        int (length (filter (\<lambda>v. v_issue_id (body v) = i_id (body d)) (votes s)))"
      by (simp add: votes_consistent_iff)
    show "i_vote_count (body d') =
        int (length (filter (\<lambda>v. v_issue_id (body v) = i_id (body d')) (votes s')))"
      using cd int_pred [OF pos] by (simp add: d' inc_vote_count_id inc_vote_count_count rows)
  qed
  moreover have "rows_unique s'"
    using u s' by (rule vote_issue_existing_unique)
  ultimately show ?thesis by simp
qed

lemma vote_issue_new_inv:
  assumes c: "votes_consistent s" and u: "rows_unique s"
    and f: "find_one (\<lambda>v. v_issue_id (body v) = issue_id \<and> v_user_id (body v) = user_id)
              (votes s) = None"
    and n: "new_uuid g \<notin> set (map (\<lambda>v. v_id (body v)) (votes s))"
    and s': "s' = s\<lparr>votes := votes s @ [\<lparr>oid = new_oid g,
                                    body = \<lparr>v_id = new_uuid g, v_issue_id = issue_id,
                                            v_user_id = user_id, v_created_at = now_created g\<rparr>\<rparr>],
                     issues := map (inc_vote_count 1 issue_id) (issues s)\<rparr>"
  shows "votes_consistent s' \<and> rows_unique s'"
proof -
  have rows: "length (filter (\<lambda>v. v_issue_id (body v) = j) (votes s')) =
                (if j = issue_id
                 then length (filter (\<lambda>v. v_issue_id (body v) = j) (votes s)) + 1
                 else length (filter (\<lambda>v. v_issue_id (body v) = j) (votes s)))" for j
    by (auto simp: s')
  have "votes_consistent s'"
    unfolding votes_consistent_iff
  proof
    fix d' assume "d' \<in> set (issues s')"
    then obtain d where d: "d \<in> set (issues s)" and d': "d' = inc_vote_count 1 issue_id d"
      by (auto simp: s')
    from c d have cd: "i_vote_count (body d) =
        int (length (filter (\<lambda>v. v_issue_id (body v) = i_id (body d)) (votes s)))"
      by (simp add: votes_consistent_iff)
    show "i_vote_count (body d') =
        int (length (filter (\<lambda>v. v_issue_id (body v) = i_id (body d')) (votes s')))"
      using cd by (simp add: d' inc_vote_count_id inc_vote_count_count rows)
  qed
  moreover have "rows_unique s'"
    using u f n s' by (rule vote_issue_new_unique)
  ultimately show ?thesis by simp
qed

lemma vote_issue_inv:
  assumes "votes_consistent s" and "rows_unique s"
    and "new_uuid g \<notin> set (map (\<lambda>v. v_id (body v)) (votes s))"
  shows "votes_consistent (after s (vote_issue s issue_id user_id g))
         \<and> rows_unique (after s (vote_issue s issue_id user_id g))"
proof (cases "find_one (\<lambda>v. v_issue_id (body v) = issue_id \<and> v_user_id (body v) = user_id) (votes s)")
  case None
  show ?thesis
    using vote_issue_new_inv [OF assms(1,2) None assms(3) refl]
    by (simp add: vote_issue_new [OF assms(2) None] after_def)
next
  case (Some ev)
  show ?thesis
    using vote_issue_existing_inv [OF assms(1,2) Some refl]
    by (simp add: vote_issue_existing [OF assms(2) Some] after_def)
qed

lemma create_issue_inv:
  assumes c: "votes_consistent s" and u: "rows_unique s"
    and n1: "new_uuid g \<notin> set (map (\<lambda>d. i_id (body d)) (issues s))"
    and n2: "new_uuid g \<notin> set (map (\<lambda>v. v_issue_id (body v)) (votes s))"
  shows "votes_consistent (after s (create_issue s issue_data user_id llm g))
         \<and> rows_unique (after s (create_issue s issue_data user_id llm g))"
proof -
  from create_issue_cases [of s issue_data user_id llm g]
  consider x where "create_issue s issue_data user_id llm g = Inl x"
    | iss where "create_issue s issue_data user_id llm g =
               Inr (iss\<lparr>i_id := new_oid g\<rparr>,
                    s\<lparr>issues := issues s @ [\<lparr>oid = new_oid g, body = iss\<rparr>]\<rparr>)"
        "i_id iss = new_uuid g" "i_vote_count iss = 0"
    by blast
  then show ?thesis
  proof cases
    case 1
    then show ?thesis using c u by (simp add: after_def)
  next
    case 2
    then have a: "after s (create_issue s issue_data user_id llm g) =
        s\<lparr>issues := issues s @ [\<lparr>oid = new_oid g, body = iss\<rparr>]\<rparr>"
      by (simp add: after_def)
    have z: "filter (\<lambda>v. v_issue_id (body v) = new_uuid g) (votes s) = []"
      using n2 by (auto simp: filter_empty_conv image_iff)
    show ?thesis
      using c u n1 2(2,3) by (auto simp: a z votes_consistent_iff rows_unique_def)
  qed
qed

lemma handle_inv:
  assumes "votes_consistent s" and "rows_unique s" and "uuid_is_new r s"
  shows "votes_consistent (handle h r s) \<and> rows_unique (handle h r s)"
proof (cases r)
  case (RegisterUser user_data g)
  have "issues (after s (register_user h s user_data g)) = issues s
        \<and> votes (after s (register_user h s user_data g)) = votes s"
    by (simp add: register_user_def after_def Let_def split: option.splits)
  then show ?thesis using assms RegisterUser
    by (simp add: votes_consistent_iff rows_unique_def)
next
  case (InitCategories gs)
  then show ?thesis using assms
    by (simp add: init_categories_def votes_consistent_iff rows_unique_def)
next
  case (CreateIssue issue_data user_id llm g)
  then show ?thesis using assms create_issue_inv [of s g issue_data user_id llm] by simp
next
  case (VoteIssue issue_id user_id g)
  then show ?thesis using assms vote_issue_inv [of s g issue_id user_id] by simp
next
  case (AddComment issue_id comment_data user_id g)
  then show ?thesis using assms
    by (simp add: add_comment_def after_def Let_def votes_consistent_iff rows_unique_def)
qed (use assms in simp_all)

lemma run_inv:
  "votes_consistent s \<Longrightarrow> rows_unique s \<Longrightarrow> uuids_new h rs s \<Longrightarrow>
   votes_consistent (run h rs s) \<and> rows_unique (run h rs s)"
proof (induction rs arbitrary: s)
  case Nil
  then show ?case by simp
next
  case (Cons r rs)
  from Cons.prems have "votes_consistent (handle h r s) \<and> rows_unique (handle h r s)"
    using handle_inv [of s r h] by simp
  with Cons.prems show ?case using Cons.IH [of "handle h r s"] by simp
qed

lemma uuids_new_take: "uuids_new h rs s \<Longrightarrow> uuids_new h (take n rs) s"
proof (induction rs arbitrary: s n)
  case Nil
  then show ?case by simp
next
  case (Cons r rs)
  then show ?case by (cases n) simp_all
qed

lemma empty_store_inv: "votes_consistent empty_store \<and> rows_unique empty_store"
  by (simp add: empty_store_def votes_consistent_iff rows_unique_def)

lemma reachable_rows_unique:
  "uuids_new h rs empty_store \<Longrightarrow> rows_unique (run h rs empty_store)"
  using run_inv [of empty_store h rs] empty_store_inv by simp

text \<open>
  C1. Start from the empty database and handle any sequence of requests one after the
  other, where every UUID generated for a new issue or a new vote is new to the database.
  After each request (after the first \<open>n\<close> requests, for every \<open>n\<close>) the \<open>vote_count\<close> of
  every stored issue equals the number of stored votes whose \<open>issue_id\<close> is that issue's
  \<open>id\<close>.
\<close>

theorem vote_count_equals_vote_rows:
  assumes "uuids_new h rs empty_store"
  shows "\<forall>n. votes_consistent (run h (take n rs) empty_store)
          \<and> (\<forall>d\<in>set (issues (run h (take n rs) empty_store)).
                i_vote_count (body d) =
                  int (length (filter (\<lambda>v. v_issue_id (body v) = i_id (body d))
                                 (votes (run h (take n rs) empty_store)))))"
proof
  fix n
  have "uuids_new h (take n rs) empty_store" using assms by (rule uuids_new_take)
  then have "votes_consistent (run h (take n rs) empty_store)"
    using run_inv [of empty_store h "take n rs"] empty_store_inv by simp
  then show "votes_consistent (run h (take n rs) empty_store)
          \<and> (\<forall>d\<in>set (issues (run h (take n rs) empty_store)).
                i_vote_count (body d) =
                  int (length (filter (\<lambda>v. v_issue_id (body v) = i_id (body d))
                                 (votes (run h (take n rs) empty_store)))))"
    by (simp add: votes_consistent_iff)
qed

subsection \<open>One toggle and two toggles\<close>

lemma vote_rows_after_insert:
  "votes s1 = votes s @ [new_vote i u g] \<Longrightarrow>
   int (vote_rows s1 j) = int (vote_rows s j) + (if j = i then 1 else 0)"
  by (simp add: vote_rows_def new_vote_def)

lemma vote_rows_after_delete:
  assumes "votes s1 = remove1 ev (votes s)" and "ev \<in> set (votes s)"
    and "v_issue_id (body ev) = i"
  shows "int (vote_rows s1 j) = int (vote_rows s j) + (if j = i then - 1 else 0)"
proof -
  have "0 < length (filter (\<lambda>v. v_issue_id (body v) = i) (votes s))"
    using assms(2,3) by (auto simp: filter_empty_conv)
  then show ?thesis
    using assms int_pred [of "length (filter (\<lambda>v. v_issue_id (body v) = i) (votes s))"]
    by (auto simp: vote_rows_def length_filter_remove1)
qed

lemma has_vote_after_insert:
  "votes s1 = votes s @ [new_vote i u g] \<Longrightarrow>
   has_vote s1 i' u' = (has_vote s i' u' \<or> (i', u') = (i, u))"
  by (auto simp: has_vote_iff new_vote_def)

lemma has_vote_after_delete:
  assumes v: "votes s1 = remove1 ev (votes s)" and ev: "ev \<in> set (votes s)"
    and p: "(v_issue_id (body ev), v_user_id (body ev)) = (i, u)"
    and d: "distinct (map (\<lambda>v. (v_issue_id (body v), v_user_id (body v))) (votes s))"
  shows "has_vote s1 i' u' = (has_vote s i' u' \<and> (i', u') \<noteq> (i, u))"
proof -
  from d have dv: "distinct (votes s)"
    and inj: "inj_on (\<lambda>v. (v_issue_id (body v), v_user_id (body v))) (set (votes s))"
    by (simp_all add: distinct_map)
  have s: "set (votes s1) = set (votes s) - {ev}" using dv by (simp add: v)
  show ?thesis
  proof
    assume "has_vote s1 i' u'"
    then obtain w where w: "w \<in> set (votes s)" "w \<noteq> ev"
      and wp: "(v_issue_id (body w), v_user_id (body w)) = (i', u')"
      by (auto simp: has_vote_iff s)
    have "(i', u') \<noteq> (i, u)"
    proof
      assume "(i', u') = (i, u)"
      with wp p have eq: "(\<lambda>v. (v_issue_id (body v), v_user_id (body v))) w
                      = (\<lambda>v. (v_issue_id (body v), v_user_id (body v))) ev" by simp
      have "w = ev" using inj_onD [OF inj eq w(1) ev] .
      with w(2) show False by simp
    qed
    with w(1) wp show "has_vote s i' u' \<and> (i', u') \<noteq> (i, u)"
      by (auto simp: has_vote_iff)
  next
    assume a: "has_vote s i' u' \<and> (i', u') \<noteq> (i, u)"
    then obtain w where w: "w \<in> set (votes s)"
      and wp: "v_issue_id (body w) = i'" "v_user_id (body w) = u'"
      by (auto simp: has_vote_iff)
    with a p have "w \<noteq> ev" by auto
    with w wp show "has_vote s1 i' u'" by (auto simp: has_vote_iff s)
  qed
qed

lemma vote_issue_effect:
  assumes u: "rows_unique s"
    and n: "new_uuid g \<notin> set (map (\<lambda>v. v_id (body v)) (votes s))"
  shows "\<exists>s1. vote_issue s issue_id user_id g = Inr (\<not> has_vote s issue_id user_id, s1)
     \<and> has_vote s1 issue_id user_id = (\<not> has_vote s issue_id user_id)
     \<and> (\<forall>i' u'. (i', u') \<noteq> (issue_id, user_id) \<longrightarrow> has_vote s1 i' u' = has_vote s i' u')
     \<and> issues s1 =
         map (inc_vote_count (if has_vote s issue_id user_id then - 1 else 1) issue_id) (issues s)
     \<and> (\<forall>j. int (vote_rows s1 j) =
              int (vote_rows s j)
              + (if j = issue_id then (if has_vote s issue_id user_id then - 1 else 1) else 0))
     \<and> rows_unique s1
     \<and> set (map (\<lambda>v. v_id (body v)) (votes s1))
           \<subseteq> insert (new_uuid g) (set (map (\<lambda>v. v_id (body v)) (votes s)))"
proof (cases "find_one (\<lambda>v. v_issue_id (body v) = issue_id \<and> v_user_id (body v) = user_id) (votes s)")
  case None
  let ?s1 = "s\<lparr>votes := votes s @ [new_vote issue_id user_id g],
                issues := map (inc_vote_count 1 issue_id) (issues s)\<rparr>"
  from None have hv: "\<not> has_vote s issue_id user_id" by (simp add: has_vote_find_one)
  have r: "vote_issue s issue_id user_id g = Inr (True, ?s1)"
    using vote_issue_new [OF u None] by (simp add: new_vote_def)
  have v: "votes ?s1 = votes s @ [new_vote issue_id user_id g]" by simp
  have ru: "rows_unique ?s1"
    using u None n by (rule vote_issue_new_unique) (simp add: new_vote_def)
  have ids: "set (map (\<lambda>v. v_id (body v)) (votes ?s1))
               \<subseteq> insert (new_uuid g) (set (map (\<lambda>v. v_id (body v)) (votes s)))"
    by (auto simp: new_vote_def)
  show ?thesis
    using hv r ru ids has_vote_after_insert [OF v] vote_rows_after_insert [OF v]
    by (intro exI [of _ ?s1]) auto
next
  case (Some ev)
  let ?s1 = "s\<lparr>votes := remove1 ev (votes s),
                issues := map (inc_vote_count (- 1) issue_id) (issues s)\<rparr>"
  from Some have hv: "has_vote s issue_id user_id" by (simp add: has_vote_find_one)
  have ev: "ev \<in> set (votes s)" "v_issue_id (body ev) = issue_id" "v_user_id (body ev) = user_id"
    using find_one_Some_D [OF Some] by simp_all
  have r: "vote_issue s issue_id user_id g = Inr (False, ?s1)"
    using vote_issue_existing [OF u Some] by simp
  have v: "votes ?s1 = remove1 ev (votes s)" by simp
  have d: "distinct (map (\<lambda>v. (v_issue_id (body v), v_user_id (body v))) (votes s))"
    using u by (simp add: rows_unique_def)
  have ru: "rows_unique ?s1"
    using u by (rule vote_issue_existing_unique) simp
  have p: "(v_issue_id (body ev), v_user_id (body ev)) = (issue_id, user_id)" using ev by simp
  have ids: "set (map (\<lambda>v. v_id (body v)) (votes ?s1))
               \<subseteq> insert (new_uuid g) (set (map (\<lambda>v. v_id (body v)) (votes s)))"
    using set_remove1_subset [of ev "votes s"] by auto
  show ?thesis
    using hv r ru ids has_vote_after_delete [OF v ev(1) p d] vote_rows_after_delete [OF v ev(1,2)]
    by (intro exI [of _ ?s1]) auto
qed

lemma vote_issue_twice_restores:
  assumes u: "rows_unique s"
    and n: "new_uuid g \<notin> set (map (\<lambda>v. v_id (body v)) (votes s))"
    and h: "\<not> has_vote s issue_id user_id"
  shows "\<exists>s1. vote_issue s issue_id user_id g = Inr (True, s1)
           \<and> vote_issue s1 issue_id user_id g2 = Inr (False, s)"
proof -
  let ?P = "\<lambda>v. v_issue_id (body v) = issue_id \<and> v_user_id (body v) = user_id"
  let ?nv = "new_vote issue_id user_id g"
  let ?s1 = "s\<lparr>votes := votes s @ [?nv],
                issues := map (inc_vote_count 1 issue_id) (issues s)\<rparr>"
  from h have none: "find_one ?P (votes s) = None" by (simp add: has_vote_find_one)
  have r1: "vote_issue s issue_id user_id g = Inr (True, ?s1)"
    using vote_issue_new [OF u none] by (simp add: new_vote_def)
  have u1: "rows_unique ?s1"
    using u none n by (rule vote_issue_new_unique) (simp add: new_vote_def)
  have "find_one ?P (votes s @ [?nv]) = Some ?nv"
    by (simp add: find_one_append none) (simp add: find_one_def new_vote_def)
  then have some: "find_one ?P (votes ?s1) = Some ?nv" by simp
  have "v_id (body ?nv) = new_uuid g" by (simp add: new_vote_def)
  with n have notin: "?nv \<notin> set (votes s)" by force
  have rm: "remove1 ?nv (votes ?s1) = votes s"
    using notin by (simp add: remove1_append)
  have un: "map (inc_vote_count (- 1) issue_id) (issues ?s1) = issues s"
    using inc_vote_count_undo [of 1 issue_id "issues s"] by simp
  have "vote_issue ?s1 issue_id user_id g2 =
          Inr (False, ?s1\<lparr>votes := remove1 ?nv (votes ?s1),
                          issues := map (inc_vote_count (- 1) issue_id) (issues ?s1)\<rparr>)"
    by (rule vote_issue_existing [OF u1 some])
  also have "?s1\<lparr>votes := remove1 ?nv (votes ?s1),
                 issues := map (inc_vote_count (- 1) issue_id) (issues ?s1)\<rparr> = s"
    unfolding rm un by simp
  finally show ?thesis using r1 by blast
qed

text \<open>
  C2. On a database with unique rows and with a new UUID at hand, \<open>vote_issue\<close> succeeds
  and returns \<open>voted\<close> = "the user had no vote on the issue". It flips whether the user
  has a vote on the issue and leaves every other (issue, user) pair alone; the number of
  vote rows of the issue and the \<open>vote_count\<close> of the issue with that \<open>id\<close> go up by one
  when \<open>voted\<close> is true and down by one when it is false; no other issue changes.
  A second toggle by the same user on the same issue returns the opposite answer and
  restores every \<open>vote_count\<close> and every user's voting state; starting without a vote
  the answers are true then false and the database is exactly the original one.
\<close>

theorem vote_issue_toggles:
  assumes "rows_unique s"
    and "new_uuid g \<notin> set (map (\<lambda>v. v_id (body v)) (votes s))"
  shows "\<exists>s1. vote_issue s issue_id user_id g = Inr (\<not> has_vote s issue_id user_id, s1)
     \<and> has_vote s1 issue_id user_id = (\<not> has_vote s issue_id user_id)
     \<and> (\<forall>i' u'. (i', u') \<noteq> (issue_id, user_id) \<longrightarrow> has_vote s1 i' u' = has_vote s i' u')
     \<and> issues s1 =
         map (inc_vote_count (if has_vote s issue_id user_id then - 1 else 1) issue_id) (issues s)
     \<and> (\<forall>j. int (vote_rows s1 j) =
              int (vote_rows s j)
              + (if j = issue_id then (if has_vote s issue_id user_id then - 1 else 1) else 0))
     \<and> (\<forall>g2. new_uuid g2 \<notin> set (map (\<lambda>v. v_id (body v)) (votes s))
               \<and> new_uuid g2 \<noteq> new_uuid g \<longrightarrow>
           (\<exists>s2. vote_issue s1 issue_id user_id g2 = Inr (has_vote s issue_id user_id, s2)
              \<and> issues s2 = issues s
              \<and> (\<forall>i' u'. has_vote s2 i' u' = has_vote s i' u')
              \<and> (\<forall>j. vote_rows s2 j = vote_rows s j)
              \<and> (\<not> has_vote s issue_id user_id \<longrightarrow> s2 = s)))"
proof -
  let ?k = "if has_vote s issue_id user_id then - 1 else (1::int)"
  from vote_issue_effect [OF assms, of issue_id user_id] obtain s1 where
    r1: "vote_issue s issue_id user_id g = Inr (\<not> has_vote s issue_id user_id, s1)"
    and h1: "has_vote s1 issue_id user_id = (\<not> has_vote s issue_id user_id)"
    and o1: "\<forall>i' u'. (i', u') \<noteq> (issue_id, user_id) \<longrightarrow> has_vote s1 i' u' = has_vote s i' u'"
    and i1: "issues s1 = map (inc_vote_count ?k issue_id) (issues s)"
    and c1: "\<forall>j. int (vote_rows s1 j) = int (vote_rows s j) + (if j = issue_id then ?k else 0)"
    and u1: "rows_unique s1"
    and ids: "set (map (\<lambda>v. v_id (body v)) (votes s1))
                \<subseteq> insert (new_uuid g) (set (map (\<lambda>v. v_id (body v)) (votes s)))"
    by blast
  have second: "\<exists>s2. vote_issue s1 issue_id user_id g2 = Inr (has_vote s issue_id user_id, s2)
              \<and> issues s2 = issues s
              \<and> (\<forall>i' u'. has_vote s2 i' u' = has_vote s i' u')
              \<and> (\<forall>j. vote_rows s2 j = vote_rows s j)
              \<and> (\<not> has_vote s issue_id user_id \<longrightarrow> s2 = s)"
    if n2': "new_uuid g2 \<notin> set (map (\<lambda>v. v_id (body v)) (votes s))
              \<and> new_uuid g2 \<noteq> new_uuid g" for g2
  proof -
    from n2' ids have n2: "new_uuid g2 \<notin> set (map (\<lambda>v. v_id (body v)) (votes s1))"
      by blast
    let ?k2 = "if has_vote s1 issue_id user_id then - 1 else (1::int)"
    from vote_issue_effect [OF u1 n2, of issue_id user_id] obtain s2 where
      r2: "vote_issue s1 issue_id user_id g2 = Inr (\<not> has_vote s1 issue_id user_id, s2)"
      and h2: "has_vote s2 issue_id user_id = (\<not> has_vote s1 issue_id user_id)"
      and o2: "\<forall>i' u'. (i', u') \<noteq> (issue_id, user_id) \<longrightarrow> has_vote s2 i' u' = has_vote s1 i' u'"
      and i2: "issues s2 = map (inc_vote_count ?k2 issue_id) (issues s1)"
      and c2: "\<forall>j. int (vote_rows s2 j) = int (vote_rows s1 j) + (if j = issue_id then ?k2 else 0)"
      by blast
    have k: "?k2 = - ?k" using h1 by simp
    have a: "vote_issue s1 issue_id user_id g2 = Inr (has_vote s issue_id user_id, s2)"
      using r2 h1 by simp
    have b: "issues s2 = issues s"
      unfolding i2 i1 k by (rule inc_vote_count_undo)
    have c: "has_vote s2 i' u' = has_vote s i' u'" for i' u'
    proof (cases "(i', u') = (issue_id, user_id)")
      case True
      then show ?thesis using h1 h2 by simp
    next
      case False
      then show ?thesis using o1 o2 by simp
    qed
    have d: "vote_rows s2 j = vote_rows s j" for j
    proof -
      have "int (vote_rows s2 j) = int (vote_rows s j)"
        using c1 c2 k by (simp del: of_nat_eq_iff)
      then show ?thesis by simp
    qed
    have e: "s2 = s" if nh: "\<not> has_vote s issue_id user_id"
    proof -
      from vote_issue_twice_restores [OF assms nh, of g2] obtain t where
        "vote_issue s issue_id user_id g = Inr (True, t)"
        and t: "vote_issue t issue_id user_id g2 = Inr (False, s)"
        by blast
      with r1 have "t = s1" by simp
      with t a show ?thesis by simp
    qed
    show ?thesis using a b c d e by blast
  qed
  show ?thesis using r1 h1 o1 i1 c1 second by blast
qed

subsection \<open>A sample run\<close>

lemma step_create:
  "handle h (CreateIssue pothole ''user-1'' (Inr ''ok'') gen_a) empty_store = voting_store 0 []"
  by (simp add: voting_store_def pothole_doc_def empty_store_def create_issue_def after_def
        insert_one_def Let_def truthy_str_def pothole_def gen_a_def)

lemma pothole_doc_id: "i_id (body (pothole_doc n)) = ''123e4567-e89b-42d3-a456-426614174000''"
  by (simp add: pothole_doc_def)

lemma pothole_doc_inc:
  "(pothole_doc n)\<lparr>body := (body (pothole_doc n))\<lparr>i_vote_count := i_vote_count (body (pothole_doc n)) + k\<rparr>\<rparr>
     = pothole_doc (n + k)"
  by (simp add: pothole_doc_def)

lemma step_vote:
  "handle h (VoteIssue ''123e4567-e89b-42d3-a456-426614174000'' u g) (voting_store n vs)
     = (case find_one (\<lambda>v. v_issue_id (body v) = ''123e4567-e89b-42d3-a456-426614174000''
                            \<and> v_user_id (body v) = u) vs of
          None \<Rightarrow> voting_store (n + 1)
                    (vs @ [new_vote ''123e4567-e89b-42d3-a456-426614174000'' u g])
        | Some ev \<Rightarrow> voting_store (n - 1)
                      (delete_one (\<lambda>v. v_id (body v) = v_id (body ev)) vs))"
  using pothole_doc_inc [of n 1] pothole_doc_inc [of n "- 1"]
  by (simp add: voting_store_def vote_issue_def after_def insert_one_def new_vote_def
        pothole_doc_id split: option.splits)

lemma gen_uuids:
  "new_uuid gen_a = ''123e4567-e89b-42d3-a456-426614174000''"
  "new_uuid gen_b = ''9b2c1d6e-3f4a-4b5c-8d7e-0a1b2c3d4e5f''"
  "new_uuid gen_c = ''0f8fad5b-d9cb-469f-a165-70867728950e''"
  by (simp_all add: gen_a_def gen_b_def gen_c_def)

lemma voting_store_rows:
  "issues (voting_store n vs) = [pothole_doc n]" "votes (voting_store n vs) = vs"
  by (simp_all add: voting_store_def)

lemma voting_run_result:
  "run h voting_run empty_store
     = voting_store 1 [new_vote ''123e4567-e89b-42d3-a456-426614174000'' ''user-2'' gen_c]"
  by (simp add: voting_run_def step_create step_vote find_one_def new_vote_def gen_uuids
        del: handle.simps)

lemma empty_store_rows: "issues empty_store = []" "votes empty_store = []"
  by (simp_all add: empty_store_def)

lemma voting_run_new: "uuids_new h voting_run empty_store"
  by (simp add: voting_run_def step_create step_vote find_one_def new_vote_def gen_uuids
        voting_store_rows empty_store_rows del: handle.simps)

theorem vote_count_equals_vote_rows_witness:
  "uuids_new (\<lambda>p. p) voting_run empty_store
   \<and> votes_consistent (run (\<lambda>p. p) voting_run empty_store)
   \<and> map (\<lambda>d. i_vote_count (body d)) (issues (run (\<lambda>p. p) voting_run empty_store)) = [1]
   \<and> map (\<lambda>v. v_user_id (body v)) (votes (run (\<lambda>p. p) voting_run empty_store)) = [''user-2'']"
proof -
  have "votes_consistent (run (\<lambda>p. p) (take 4 voting_run) empty_store)"
    using vote_count_equals_vote_rows [OF voting_run_new, of "\<lambda>p. p"] by blast
  moreover have "take 4 voting_run = voting_run" by (simp add: voting_run_def)
  ultimately have c: "votes_consistent (run (\<lambda>p. p) voting_run empty_store)" by simp
  have r: "map (\<lambda>d. i_vote_count (body d)) (issues (run (\<lambda>p. p) voting_run empty_store)) = [1]"
    by (simp add: voting_run_result voting_store_def pothole_doc_def)
  have v: "map (\<lambda>v. v_user_id (body v)) (votes (run (\<lambda>p. p) voting_run empty_store)) = [''user-2'']"
    by (simp add: voting_run_result voting_store_def new_vote_def)
  show ?thesis using voting_run_new c r v by blast
qed

theorem vote_issue_toggles_witness:
  "\<exists>s1. vote_issue issue_a_store ''123e4567-e89b-42d3-a456-426614174000'' ''user-1'' gen_c
           = Inr (True, s1)
     \<and> has_vote s1 ''123e4567-e89b-42d3-a456-426614174000'' ''user-1''
     \<and> map (\<lambda>d. i_vote_count (body d)) (issues s1) = [1]
     \<and> vote_issue s1 ''123e4567-e89b-42d3-a456-426614174000'' ''user-1'' gen_b
           = Inr (False, issue_a_store)"
proof -
  let ?i = "''123e4567-e89b-42d3-a456-426614174000''"
  have ru: "rows_unique issue_a_store"
    by (simp add: issue_a_store_eq rows_unique_def)
  have fr: "new_uuid gen_c \<notin> set (map (\<lambda>v. v_id (body v)) (votes issue_a_store))"
    by (simp add: issue_a_store_eq)
  have nh: "has_vote issue_a_store ?i ''user-1'' = False"
    by (simp add: issue_a_store_eq has_vote_def)
  have fr2: "new_uuid gen_b \<notin> set (map (\<lambda>v. v_id (body v)) (votes issue_a_store))
             \<and> new_uuid gen_b \<noteq> new_uuid gen_c"
    by (simp add: issue_a_store_eq gen_uuids)
  from vote_issue_toggles [OF ru fr, of ?i "''user-1''"] obtain s1 where
    r1: "vote_issue issue_a_store ?i ''user-1'' gen_c
           = Inr (\<not> has_vote issue_a_store ?i ''user-1'', s1)"
    and h1: "has_vote s1 ?i ''user-1'' = (\<not> has_vote issue_a_store ?i ''user-1'')"
    and i1: "issues s1 =
         map (inc_vote_count (if has_vote issue_a_store ?i ''user-1'' then - 1 else 1) ?i)
           (issues issue_a_store)"
    and second: "\<forall>g2. new_uuid g2 \<notin> set (map (\<lambda>v. v_id (body v)) (votes issue_a_store))
               \<and> new_uuid g2 \<noteq> new_uuid gen_c \<longrightarrow>
           (\<exists>s2. vote_issue s1 ?i ''user-1'' g2 = Inr (has_vote issue_a_store ?i ''user-1'', s2)
              \<and> issues s2 = issues issue_a_store
              \<and> (\<forall>i' u'. has_vote s2 i' u' = has_vote issue_a_store i' u')
              \<and> (\<forall>j. vote_rows s2 j = vote_rows issue_a_store j)
              \<and> (\<not> has_vote issue_a_store ?i ''user-1'' \<longrightarrow> s2 = issue_a_store))"
    by (elim exE conjE) (rule that, assumption+)
  from second fr2 obtain s2 where
    "vote_issue s1 ?i ''user-1'' gen_b = Inr (has_vote issue_a_store ?i ''user-1'', s2)"
    and "\<not> has_vote issue_a_store ?i ''user-1'' \<longrightarrow> s2 = issue_a_store"
    by blast
  then have r2: "vote_issue s1 ?i ''user-1'' gen_b = Inr (False, issue_a_store)"
    by (simp add: nh)
  have c: "map (\<lambda>d. i_vote_count (body d)) (issues s1) = [1]"
    by (simp add: i1 nh) (simp add: issue_a_store_eq inc_vote_count_def)
  show ?thesis
    using r1 h1 c r2 unfolding nh by (intro exI [of _ s1]) simp
qed

end
